theory Spec2Isabelle
  imports Main
begin

section \<open>Hit counting: the models of hitcount/models.py\<close>

text \<open>
  The module defines two Django models, \<open>HitCount\<close> (the running total of one content
  object) and \<open>Hit\<close> (one recorded view), a manager method \<open>filter_active\<close> and a
  \<open>pre_delete\<close> signal handler \<open>subtract_hit_count\<close>.

  The embedding makes explicit what the Python leaves implicit:
  \<^item> the database is a pair of tables, each a list of rows in insertion order, keyed by
    an integer primary key; every method takes the database and returns the new one;
  \<^item> a Python model instance is a record separate from the stored row: it may be unsaved
    (no primary key), and its \<open>hits\<close> attribute may hold an \<open>F\<close> expression, which the
    database evaluates against the stored column when the row is updated;
  \<^item> each call of \<open>datetime.datetime.utcnow()\<close> is a parameter of the function that
    makes it, so a theorem holds for every reading of the clock;
  \<^item> every exception is a value \<open>Inl e\<close> of the result type.

  Column constraints that Django hands to the database backend (the sign check of a
  \<open>PositiveIntegerField\<close>, \<open>unique_together\<close>, foreign keys, \<open>max_length\<close>) are not
  part of the module and are not modelled: a column stores whatever the module writes.
  Float arguments of \<open>timedelta\<close> are outside the model (durations are whole
  microseconds). The \<open>_order\<close> column that \<open>order_with_respect_to\<close> adds to a hit
  plays no part in any count and is left out. Assertions are enabled, as they are unless
  Python runs with \<open>-O\<close>. Calls run one after the other: the model has no concurrency.
\<close>

subsection \<open>Time: datetime and timedelta\<close>

text \<open>
  A naive UTC \<open>datetime\<close> is the number of microseconds since 0001-01-01 00:00:00; a
  \<open>timedelta\<close> is a number of microseconds. Python bounds both: a \<open>timedelta\<close> lies
  between -999999999 days and 999999999 days 23:59:59.999999, a \<open>datetime\<close> between
  year 1 and year 9999 (3652059 days), and arithmetic that leaves the range raises
  \<open>OverflowError\<close>.
\<close>

type_synonym datetime = int
type_synonym timedelta = int

datatype error = AssertionError | TypeError | OverflowError | DoesNotExist | IntegrityError

datatype pyval = PyInt int | PyStr string

type_synonym kwargs = "(string \<times> pyval) list"

definition us_per_day :: int where
  "us_per_day = 86400000000"

definition datetime_range :: int where
  "datetime_range = 3652059 * us_per_day"

text \<open>The keyword arguments \<open>datetime.timedelta\<close> accepts, each with its length in microseconds.\<close>

definition unit_us :: "string \<Rightarrow> int option" where
  "unit_us k =
     (if k = ''days'' then Some 86400000000
      else if k = ''seconds'' then Some 1000000
      else if k = ''microseconds'' then Some 1
      else if k = ''milliseconds'' then Some 1000
      else if k = ''minutes'' then Some 60000000
      else if k = ''hours'' then Some 3600000000
      else if k = ''weeks'' then Some 604800000000
      else None)"

text \<open>
  \<open>timedelta(**kwargs)\<close>: an unknown keyword or a value that is not a number raises
  \<open>TypeError\<close>; the components are summed; a sum outside the range raises
  \<open>OverflowError\<close>.
\<close>

fun timedelta_us :: "kwargs \<Rightarrow> error + int" where
  "timedelta_us [] = Inr 0"
| "timedelta_us ((k, v) # kw) =
     (case unit_us k of
        None \<Rightarrow> Inl TypeError
      | Some u \<Rightarrow>
          (case v of
             PyStr s \<Rightarrow> Inl TypeError
           | PyInt n \<Rightarrow>
               (case timedelta_us kw of
                  Inl e \<Rightarrow> Inl e
                | Inr s \<Rightarrow> Inr (u * n + s))))"

definition timedelta :: "kwargs \<Rightarrow> error + timedelta" where
  "timedelta kw =
     (case timedelta_us kw of
        Inl e \<Rightarrow> Inl e
      | Inr s \<Rightarrow>
          if - 999999999 * us_per_day \<le> s \<and> s < 1000000000 * us_per_day
          then Inr s else Inl OverflowError)"

text \<open>\<open>datetime - timedelta\<close>.\<close>

definition datetime_sub :: "datetime \<Rightarrow> timedelta \<Rightarrow> error + datetime" where
  "datetime_sub t d =
     (if 0 \<le> t - d \<and> t - d < datetime_range then Inr (t - d) else Inl OverflowError)"

subsection \<open>Stored rows and the database\<close>

record hitcount_row =
  r_id :: nat
  r_hits :: int
  r_modified :: datetime
  r_content_type :: nat
  r_object_id :: nat

record hit_row =
  h_id :: nat
  h_created :: datetime
  h_ip :: string
  h_session :: string
  h_user_agent :: string
  h_user :: "nat option"
  h_hitcount_id :: nat

record database =
  hitcount_table :: "hitcount_row list"
  hit_table :: "hit_row list"

definition hitcount_row_of :: "database \<Rightarrow> nat \<Rightarrow> hitcount_row option" where
  "hitcount_row_of db i = find (\<lambda>r. r_id r = i) (hitcount_table db)"

definition hit_row_of :: "database \<Rightarrow> nat \<Rightarrow> hit_row option" where
  "hit_row_of db i = find (\<lambda>h. h_id h = i) (hit_table db)"

text \<open>The stored counter and timestamp of the aggregate with primary key \<open>a\<close>.\<close>

definition stored_hits :: "database \<Rightarrow> nat \<Rightarrow> int option" where
  "stored_hits db a = map_option r_hits (hitcount_row_of db a)"

definition stored_modified :: "database \<Rightarrow> nat \<Rightarrow> datetime option" where
  "stored_modified db a = map_option r_modified (hitcount_row_of db a)"

text \<open>The key an auto-increment column gives the next inserted row.\<close>

definition next_id :: "nat list \<Rightarrow> nat" where
  "next_id ids = Suc (fold max ids 0)"

subsection \<open>Model instances\<close>

text \<open>
  The value of the \<open>hits\<close> attribute of an instance: a number, or an expression over
  \<open>F('hits')\<close>, the value of the column at the time of the update.
\<close>

datatype expr = Const int | F_hits | Plus expr expr | Minus expr expr

fun eval_expr :: "expr \<Rightarrow> int \<Rightarrow> int" where
  "eval_expr (Const v) cur = v"
| "eval_expr F_hits cur = cur"
| "eval_expr (Plus a b) cur = eval_expr a cur + eval_expr b cur"
| "eval_expr (Minus a b) cur = eval_expr a cur - eval_expr b cur"

record HitCount =
  hc_pk :: "nat option"
  hits :: expr
  modified :: datetime
  content_type :: nat
  object_id :: nat

text \<open>
  A \<open>Hit\<close> instance holds the foreign key \<open>hitcount_id\<close> and, once the related object
  has been assigned or fetched, the related instance itself (Django caches it on the
  instance).
\<close>

record Hit =
  hit_pk :: "nat option"
  created :: "datetime option"
  ip :: string
  session :: string
  user_agent :: string
  user :: "nat option"
  hitcount_id :: nat
  hitcount_cache :: "HitCount option"

definition HitCount_of_row :: "hitcount_row \<Rightarrow> HitCount" where
  "HitCount_of_row r =
     \<lparr>hc_pk = Some (r_id r), hits = Const (r_hits r), modified = r_modified r,
      content_type = r_content_type r, object_id = r_object_id r\<rparr>"

definition Hit_of_row :: "hit_row \<Rightarrow> Hit" where
  "Hit_of_row h =
     \<lparr>hit_pk = Some (h_id h), created = Some (h_created h), ip = h_ip h,
      session = h_session h, user_agent = h_user_agent h, user = h_user h,
      hitcount_id = h_hitcount_id h, hitcount_cache = None\<rparr>"

text \<open>\<open>HitCount.objects.get(pk=i)\<close> and \<open>Hit.objects.get(pk=i)\<close>.\<close>

definition HitCount_get :: "database \<Rightarrow> nat \<Rightarrow> error + HitCount" where
  "HitCount_get db i =
     (case hitcount_row_of db i of
        None \<Rightarrow> Inl DoesNotExist
      | Some r \<Rightarrow> Inr (HitCount_of_row r))"

definition Hit_get :: "database \<Rightarrow> nat \<Rightarrow> error + Hit" where
  "Hit_get db i =
     (case hit_row_of db i of
        None \<Rightarrow> Inl DoesNotExist
      | Some h \<Rightarrow> Inr (Hit_of_row h))"

subsection \<open>Model.save of the framework\<close>

text \<open>
  \<open>Model.save\<close>: when the instance has a primary key and a row with that key exists,
  the row is updated with the instance's fields (an \<open>F\<close> expression is evaluated
  against the stored row); otherwise a row is inserted, under the instance's key or
  under the next automatic key, and an \<open>F\<close> expression cannot be inserted.
\<close>

definition HitCount_update :: "nat \<Rightarrow> HitCount \<Rightarrow> hitcount_row \<Rightarrow> hitcount_row" where
  "HitCount_update i self r =
     (if r_id r = i
      then \<lparr>r_id = i, r_hits = eval_expr (hits self) (r_hits r), r_modified = modified self,
            r_content_type = content_type self, r_object_id = object_id self\<rparr>
      else r)"

definition HitCount_insert :: "nat \<Rightarrow> HitCount \<Rightarrow> database \<Rightarrow> error + database \<times> HitCount" where
  "HitCount_insert i self db =
     (case hits self of
        Const v \<Rightarrow>
          Inr (db\<lparr>hitcount_table := hitcount_table db @
                     [\<lparr>r_id = i, r_hits = v, r_modified = modified self,
                       r_content_type = content_type self, r_object_id = object_id self\<rparr>]\<rparr>,
               self\<lparr>hc_pk := Some i\<rparr>)
      | F_hits \<Rightarrow> Inl TypeError
      | Plus a b \<Rightarrow> Inl TypeError
      | Minus a b \<Rightarrow> Inl TypeError)"

definition HitCount_base_save :: "HitCount \<Rightarrow> database \<Rightarrow> error + database \<times> HitCount" where
  "HitCount_base_save self db =
     (case hc_pk self of
        Some i \<Rightarrow>
          (case hitcount_row_of db i of
             Some r \<Rightarrow>
               Inr (db\<lparr>hitcount_table := map (HitCount_update i self) (hitcount_table db)\<rparr>, self)
           | None \<Rightarrow> HitCount_insert i self db)
      | None \<Rightarrow> HitCount_insert (next_id (map r_id (hitcount_table db))) self db)"

definition Hit_row_of_instance :: "nat \<Rightarrow> datetime \<Rightarrow> Hit \<Rightarrow> hit_row" where
  "Hit_row_of_instance i c self =
     \<lparr>h_id = i, h_created = c, h_ip = ip self, h_session = session self,
      h_user_agent = user_agent self, h_user = user self, h_hitcount_id = hitcount_id self\<rparr>"

definition Hit_update :: "nat \<Rightarrow> datetime \<Rightarrow> Hit \<Rightarrow> hit_row \<Rightarrow> hit_row" where
  "Hit_update i c self h = (if h_id h = i then Hit_row_of_instance i c self else h)"

definition Hit_insert :: "nat \<Rightarrow> datetime \<Rightarrow> Hit \<Rightarrow> database \<Rightarrow> database \<times> Hit" where
  "Hit_insert i c self db =
     (db\<lparr>hit_table := hit_table db @ [Hit_row_of_instance i c self]\<rparr>, self\<lparr>hit_pk := Some i\<rparr>)"

text \<open>The column \<open>created\<close> is not nullable: a row without it is refused.\<close>

definition Hit_base_save :: "Hit \<Rightarrow> database \<Rightarrow> error + database \<times> Hit" where
  "Hit_base_save self db =
     (case created self of
        None \<Rightarrow> Inl IntegrityError
      | Some c \<Rightarrow>
          (case hit_pk self of
             Some i \<Rightarrow>
               (case hit_row_of db i of
                  Some h \<Rightarrow> Inr (db\<lparr>hit_table := map (Hit_update i c self) (hit_table db)\<rparr>, self)
                | None \<Rightarrow> Inr (Hit_insert i c self db))
           | None \<Rightarrow> Inr (Hit_insert (next_id (map h_id (hit_table db))) c self db)))"

subsection \<open>HitCount\<close>

text \<open>
  \<^verbatim>\<open>
  def save(self, *args, **kwargs):
      self.modified = datetime.datetime.utcnow()
      super(HitCount, self).save(*args, **kwargs)
  \<close>
\<close>

definition HitCount_save :: "datetime \<Rightarrow> HitCount \<Rightarrow> database \<Rightarrow> error + database \<times> HitCount" where
  "HitCount_save now self db = HitCount_base_save (self\<lparr>modified := now\<rparr>) db"

text \<open>\<open>self.hit_set\<close>: the hits whose foreign key is the primary key of \<open>self\<close>.\<close>

definition hit_set :: "HitCount \<Rightarrow> database \<Rightarrow> hit_row list" where
  "hit_set self db = filter (\<lambda>h. hc_pk self = Some (h_hitcount_id h)) (hit_table db)"

text \<open>
  \<^verbatim>\<open>
  def hits_in_last(self, **kwargs):
      assert kwargs, "Must provide at least one timedelta arg (eg, days=1)"
      period = datetime.datetime.utcnow() - datetime.timedelta(**kwargs)
      return self.hit_set.filter(created__gte=period).count()
  \<close>
\<close>

definition hits_in_last :: "datetime \<Rightarrow> HitCount \<Rightarrow> kwargs \<Rightarrow> database \<Rightarrow> error + nat" where
  "hits_in_last now self kw db =
     (if kw = [] then Inl AssertionError
      else
        (case timedelta kw of
           Inl e \<Rightarrow> Inl e
         | Inr d \<Rightarrow>
             (case datetime_sub now d of
                Inl e \<Rightarrow> Inl e
              | Inr period \<Rightarrow>
                  Inr (length (filter (\<lambda>h. period \<le> h_created h) (hit_set self db))))))"

subsection \<open>HitManager\<close>

text \<open>
  \<^verbatim>\<open>
  def filter_active(self, *args, **kwargs):
      grace = getattr(settings, 'HITCOUNT_KEEP_HIT_ACTIVE', {'days':7})
      period = datetime.datetime.utcnow() - datetime.timedelta(**grace)
      queryset = self.get_query_set()
      queryset = queryset.filter(created__gte=period)
      return queryset.filter(*args, **kwargs)
  \<close>
  The setting is \<open>None\<close> when \<open>settings\<close> has no attribute \<open>HITCOUNT_KEEP_HIT_ACTIVE\<close>.
  The caller's further filter arguments are a predicate on rows. The query is evaluated
  against the database of the call. The result is the set of rows of the query set: the
  order in which Django yields them (by the \<open>_order\<close> column of
  \<open>order_with_respect_to\<close>, ties in the order of the backend) is not modelled.
\<close>

definition grace :: "kwargs option \<Rightarrow> kwargs" where
  "grace setting = (case setting of None \<Rightarrow> [(''days'', PyInt 7)] | Some g \<Rightarrow> g)"

definition filter_active ::
    "kwargs option \<Rightarrow> datetime \<Rightarrow> (hit_row \<Rightarrow> bool) \<Rightarrow> database \<Rightarrow> error + hit_row set" where
  "filter_active setting now cond db =
     (case timedelta (grace setting) of
        Inl e \<Rightarrow> Inl e
      | Inr d \<Rightarrow>
          (case datetime_sub now d of
             Inl e \<Rightarrow> Inl e
           | Inr period \<Rightarrow>
               Inr (set (filter cond (filter (\<lambda>h. period \<le> h_created h) (hit_table db))))))"

text \<open>The call without further filter arguments, \<open>Hit.objects.filter_active()\<close>.\<close>

definition no_filter :: "hit_row \<Rightarrow> bool" where
  "no_filter h = True"

subsection \<open>Hit\<close>

text \<open>
  \<open>self.hitcount\<close>: the cached related instance, or else the row the foreign key names,
  fetched from the database (\<open>DoesNotExist\<close> when there is none).
\<close>

definition Hit_hitcount :: "Hit \<Rightarrow> database \<Rightarrow> error + HitCount" where
  "Hit_hitcount self db =
     (case hitcount_cache self of
        Some hc \<Rightarrow> Inr hc
      | None \<Rightarrow> HitCount_get db (hitcount_id self))"

text \<open>
  \<^verbatim>\<open>
  def save(self, *args, **kwargs):
      if not self.created:
          self.hitcount.hits = F('hits') + 1
          self.hitcount.save()
          self.created = datetime.datetime.utcnow()
      super(Hit, self).save(*args, **kwargs)
  \<close>
  The clock is read twice on a first save: \<open>t_mod\<close> by \<open>HitCount.save\<close>, then
  \<open>t_cre\<close> for \<open>created\<close>.
\<close>

definition Hit_save :: "datetime \<Rightarrow> datetime \<Rightarrow> Hit \<Rightarrow> database \<Rightarrow> error + database \<times> Hit" where
  "Hit_save t_mod t_cre self db =
     (if created self = None then
        (case Hit_hitcount self db of
           Inl e \<Rightarrow> Inl e
         | Inr hc \<Rightarrow>
             (case HitCount_save t_mod (hc\<lparr>hits := Plus F_hits (Const 1)\<rparr>) db of
                Inl e \<Rightarrow> Inl e
              | Inr (db1, hc1) \<Rightarrow>
                  Hit_base_save (self\<lparr>hitcount_cache := Some hc1, created := Some t_cre\<rparr>) db1))
      else Hit_base_save self db)"

subsection \<open>Signal catching\<close>

text \<open>
  \<^verbatim>\<open>
  def subtract_hit_count(sender, instance, **kwargs):
      instance.hitcount.hits = F('hits') - 1
      instance.hitcount.save()

  pre_delete.connect(subtract_hit_count, sender=Hit)
  \<close>
\<close>

definition subtract_hit_count :: "datetime \<Rightarrow> Hit \<Rightarrow> database \<Rightarrow> error + database \<times> Hit" where
  "subtract_hit_count now instance db =
     (case Hit_hitcount instance db of
        Inl e \<Rightarrow> Inl e
      | Inr hc \<Rightarrow>
          (case HitCount_save now (hc\<lparr>hits := Minus F_hits (Const 1)\<rparr>) db of
             Inl e \<Rightarrow> Inl e
           | Inr (db1, hc1) \<Rightarrow> Inr (db1, instance\<lparr>hitcount_cache := Some hc1\<rparr>)))"

text \<open>
  \<open>Hit.delete()\<close>, the framework's delete path with the handler connected: an instance
  without a primary key is refused by an assertion; \<open>pre_delete\<close> runs the handler;
  then the row is removed and the instance loses its key.
\<close>

definition Hit_delete :: "datetime \<Rightarrow> Hit \<Rightarrow> database \<Rightarrow> error + database \<times> Hit" where
  "Hit_delete now self db =
     (case hit_pk self of
        None \<Rightarrow> Inl AssertionError
      | Some i \<Rightarrow>
          (case subtract_hit_count now self db of
             Inl e \<Rightarrow> Inl e
           | Inr (db1, self1) \<Rightarrow>
               Inr (db1\<lparr>hit_table := filter (\<lambda>h. h_id h \<noteq> i) (hit_table db1)\<rparr>,
                    self1\<lparr>hit_pk := None\<rparr>)))"

subsection \<open>Sequences of calls\<close>

text \<open>
  A caller's use of the models, one constructor per call:
  \<^item> \<open>View a i s u usr t_mod t_cre\<close>: \<open>Hit(hitcount=HitCount.objects.get(pk=a), ip=i,
    session=s, user_agent=u, user=usr).save()\<close>, the recording of an accepted view;
  \<^item> \<open>Resave k t_mod t_cre\<close>: \<open>Hit.objects.get(pk=k).save()\<close>;
  \<^item> \<open>Delete k t\<close>: \<open>Hit.objects.get(pk=k).delete()\<close>;
  \<^item> \<open>Touch a t\<close>: \<open>HitCount.objects.get(pk=a).save()\<close>;
  \<^item> \<open>Query_last a kw t\<close>: \<open>HitCount.objects.get(pk=a).hits_in_last(**kw)\<close>;
  \<^item> \<open>Query_active setting t\<close>: \<open>Hit.objects.filter_active()\<close>.
  An exception ends the sequence.
\<close>

datatype call =
    View nat string string string "nat option" datetime datetime
  | Resave nat datetime datetime
  | Delete nat datetime
  | Touch nat datetime
  | Query_last nat kwargs datetime
  | Query_active "kwargs option" datetime

definition new_Hit :: "HitCount \<Rightarrow> nat \<Rightarrow> string \<Rightarrow> string \<Rightarrow> string \<Rightarrow> nat option \<Rightarrow> Hit" where
  "new_Hit hc a i s u usr =
     \<lparr>hit_pk = None, created = None, ip = i, session = s, user_agent = u, user = usr,
      hitcount_id = a, hitcount_cache = Some hc\<rparr>"

fun exec :: "call \<Rightarrow> database \<Rightarrow> error + database" where
  "exec (View a i s u usr t_mod t_cre) db =
     (case HitCount_get db a of
        Inl e \<Rightarrow> Inl e
      | Inr hc \<Rightarrow> map_sum (\<lambda>e. e) fst (Hit_save t_mod t_cre (new_Hit hc a i s u usr) db))"
| "exec (Resave k t_mod t_cre) db =
     (case Hit_get db k of
        Inl e \<Rightarrow> Inl e
      | Inr h \<Rightarrow> map_sum (\<lambda>e. e) fst (Hit_save t_mod t_cre h db))"
| "exec (Delete k t) db =
     (case Hit_get db k of
        Inl e \<Rightarrow> Inl e
      | Inr h \<Rightarrow> map_sum (\<lambda>e. e) fst (Hit_delete t h db))"
| "exec (Touch a t) db =
     (case HitCount_get db a of
        Inl e \<Rightarrow> Inl e
      | Inr hc \<Rightarrow> map_sum (\<lambda>e. e) fst (HitCount_save t hc db))"
| "exec (Query_last a kw t) db =
     (case HitCount_get db a of
        Inl e \<Rightarrow> Inl e
      | Inr hc \<Rightarrow> map_sum (\<lambda>e. e) (\<lambda>n. db) (hits_in_last t hc kw db))"
| "exec (Query_active setting t) db =
     map_sum (\<lambda>e. e) (\<lambda>hs. db) (filter_active setting t (\<lambda>h. True) db)"

fun run :: "call list \<Rightarrow> database \<Rightarrow> error + database" where
  "run [] db = Inr db"
| "run (c # cs) db = (case exec c db of Inl e \<Rightarrow> Inl e | Inr db1 \<Rightarrow> run cs db1)"

text \<open>
  The number of stored hits of aggregate \<open>a\<close>, and the consistency of the counters
  with the hit table: primary keys are unique and every aggregate's \<open>hits\<close> is the
  number of its stored hits.
\<close>

definition hit_count :: "database \<Rightarrow> nat \<Rightarrow> nat" where
  "hit_count db a = length (filter (\<lambda>h. h_hitcount_id h = a) (hit_table db))"

definition consistent :: "database \<Rightarrow> bool" where
  "consistent db \<longleftrightarrow>
     distinct (map r_id (hitcount_table db)) \<and>
     distinct (map h_id (hit_table db)) \<and>
     list_all (\<lambda>r. r_hits r = int (hit_count db (r_id r))) (hitcount_table db)"

text \<open>The stored \<open>created\<close> timestamp of the hit with primary key \<open>k\<close>.\<close>

definition stored_created :: "database \<Rightarrow> nat \<Rightarrow> datetime option" where
  "stored_created db k = map_option h_created (hit_row_of db k)"

subsection \<open>Example data\<close>

text \<open>
  A moment in the year 2024, and a database holding one aggregate with two hits, the
  first created ten days and the second one day before that moment.
\<close>

definition now0 :: datetime where
  "now0 = 739000 * us_per_day"

definition db0 :: database where
  "db0 =
     \<lparr>hitcount_table =
        [\<lparr>r_id = 1, r_hits = 2, r_modified = now0 - us_per_day, r_content_type = 5, r_object_id = 42\<rparr>],
      hit_table =
        [\<lparr>h_id = 1, h_created = now0 - 10 * us_per_day, h_ip = ''10.0.0.1'', h_session = ''s1'',
          h_user_agent = ''agent'', h_user = None, h_hitcount_id = 1\<rparr>,
         \<lparr>h_id = 2, h_created = now0 - us_per_day, h_ip = ''10.0.0.2'', h_session = ''s2'',
          h_user_agent = ''agent'', h_user = Some 3, h_hitcount_id = 1\<rparr>]\<rparr>"

definition hc0 :: HitCount where
  "hc0 = \<lparr>hc_pk = Some 1, hits = Const 2, modified = now0 - us_per_day, content_type = 5, object_id = 42\<rparr>"

text \<open>
  A hit dated one day after \<open>now0\<close>, as stored by a server whose clock is ahead or
  by \<open>Hit(created=...).save()\<close>, and the example database with that hit added.
\<close>

definition hit_row_future :: hit_row where
  "hit_row_future =
     \<lparr>h_id = 3, h_created = now0 + us_per_day, h_ip = ''10.0.0.7'', h_session = ''s7'',
      h_user_agent = ''agent'', h_user = None, h_hitcount_id = 1\<rparr>"

definition db_future :: database where
  "db_future = db0\<lparr>hit_table := hit_table db0 @ [hit_row_future]\<rparr>"

text \<open>The setting of the docstring, \<open>{'days' : 30, 'minutes' : 30}\<close>.\<close>

definition grace_30 :: kwargs where
  "grace_30 = [(''days'', PyInt 30), (''minutes'', PyInt 30)]"

text \<open>A new, unsaved hit for the aggregate, and the instance of the second stored hit.\<close>

definition hit0 :: Hit where
  "hit0 = new_Hit hc0 1 ''10.0.0.9'' ''s9'' ''agent'' None"

definition hit2 :: Hit where
  "hit2 = Hit_of_row (hit_table db0 ! 1)"

text \<open>A database whose only aggregate has no hits yet.\<close>

definition db_zero :: database where
  "db_zero =
     \<lparr>hitcount_table =
        [\<lparr>r_id = 1, r_hits = 0, r_modified = now0 - us_per_day, r_content_type = 5, r_object_id = 42\<rparr>],
      hit_table = []\<rparr>"

text \<open>
  The example database with the aggregate's counter reset to zero while its hits are
  still stored, and the instance of that aggregate.
\<close>

definition db_reset :: database where
  "db_reset =
     db0\<lparr>hitcount_table :=
        [\<lparr>r_id = 1, r_hits = 0, r_modified = now0 - us_per_day, r_content_type = 5, r_object_id = 42\<rparr>]\<rparr>"

definition hc_reset :: HitCount where
  "hc_reset = \<lparr>hc_pk = Some 1, hits = Const 0, modified = now0 - us_per_day, content_type = 5, object_id = 42\<rparr>"

text \<open>
  Two sequences of calls, and the databases they lead to: \<open>calls0\<close> from
  \<open>db0\<close> to \<open>db_after\<close>, \<open>views0\<close> from \<open>db_zero\<close> to \<open>db_views\<close>.
\<close>

definition calls0 :: "call list" where
  "calls0 =
     [View 1 ''10.0.0.3'' ''s3'' ''agent'' None (now0 + 1) (now0 + 2),
      Delete 1 (now0 + 3),
      Touch 1 (now0 + 4),
      Resave 2 (now0 + 5) (now0 + 6),
      Query_last 1 [(''days'', PyInt 7)] (now0 + 7),
      Query_active None (now0 + 8)]"

definition views0 :: "call list" where
  "views0 =
     [View 1 ''10.0.0.3'' ''s3'' ''agent'' None (now0 + 1) (now0 + 2),
      View 1 ''10.0.0.4'' ''s4'' ''agent'' (Some 8) (now0 + 3) (now0 + 4)]"

definition db_after :: database where
  "db_after =
     \<lparr>hitcount_table =
        [\<lparr>r_id = 1, r_hits = 2, r_modified = now0 + 4, r_content_type = 5, r_object_id = 42\<rparr>],
      hit_table =
        [\<lparr>h_id = 2, h_created = now0 - us_per_day, h_ip = ''10.0.0.2'', h_session = ''s2'',
          h_user_agent = ''agent'', h_user = Some 3, h_hitcount_id = 1\<rparr>,
         \<lparr>h_id = 3, h_created = now0 + 2, h_ip = ''10.0.0.3'', h_session = ''s3'',
          h_user_agent = ''agent'', h_user = None, h_hitcount_id = 1\<rparr>]\<rparr>"

definition db_views :: database where
  "db_views =
     \<lparr>hitcount_table =
        [\<lparr>r_id = 1, r_hits = 2, r_modified = now0 + 3, r_content_type = 5, r_object_id = 42\<rparr>],
      hit_table =
        [\<lparr>h_id = 1, h_created = now0 + 2, h_ip = ''10.0.0.3'', h_session = ''s3'',
          h_user_agent = ''agent'', h_user = None, h_hitcount_id = 1\<rparr>,
         \<lparr>h_id = 2, h_created = now0 + 4, h_ip = ''10.0.0.4'', h_session = ''s4'',
          h_user_agent = ''agent'', h_user = Some 8, h_hitcount_id = 1\<rparr>]\<rparr>"

text \<open>The calls that record a view on aggregate \<open>a\<close>, and the calls that delete a hit.\<close>

fun is_view_on :: "nat \<Rightarrow> call \<Rightarrow> bool" where
  "is_view_on a (View b i s u usr t_mod t_cre) = (a = b)"
| "is_view_on a (Resave k t_mod t_cre) = False"
| "is_view_on a (Delete k t) = False"
| "is_view_on a (Touch b t) = False"
| "is_view_on a (Query_last b kw t) = False"
| "is_view_on a (Query_active setting t) = False"

fun is_delete :: "call \<Rightarrow> bool" where
  "is_delete (View b i s u usr t_mod t_cre) = False"
| "is_delete (Resave k t_mod t_cre) = False"
| "is_delete (Delete k t) = True"
| "is_delete (Touch b t) = False"
| "is_delete (Query_last b kw t) = False"
| "is_delete (Query_active setting t) = False"

section \<open>Auxiliary facts\<close>

subsection \<open>Lists and keys\<close>

lemma filter_filter_conj: "filter P (filter Q xs) = filter (\<lambda>x. Q x \<and> P x) xs"
  by (induction xs) auto

lemma find_key: "find (\<lambda>x. key x = a) xs = Some r \<Longrightarrow> key r = a"
  by (induction xs) (auto split: if_splits)

lemma find_mem: "find P xs = Some x \<Longrightarrow> x \<in> set xs \<and> P x"
  by (induction xs) (auto split: if_splits)

lemma find_map_key:
  assumes "\<And>x. key (f x) = key x"
  shows "find (\<lambda>x. key x = a) (map f xs) = map_option f (find (\<lambda>x. key x = a) xs)"
  by (induction xs) (auto simp: assms)

lemma find_append_key:
  "find P (xs @ ys) = (case find P xs of None \<Rightarrow> find P ys | Some x \<Rightarrow> Some x)"
  by (induction xs) auto

lemma find_fresh: "k \<notin> set (map key xs) \<Longrightarrow> find (\<lambda>x. key x = k) xs = None"
  by (induction xs) auto

lemma find_filter_out: "find (\<lambda>x. key x = k) (filter (\<lambda>x. key x \<noteq> k) xs) = None"
  by (induction xs) auto

lemma filter_out_absent: "k \<notin> set (map key xs) \<Longrightarrow> filter (\<lambda>x. key x \<noteq> k) xs = xs"
  by (induction xs) auto

lemma length_filter_remove:
  assumes "distinct (map key xs)" and "find (\<lambda>x. key x = k) xs = Some h"
  shows "length (filter P xs) =
           length (filter P (filter (\<lambda>x. key x \<noteq> k) xs)) + (if P h then 1 else 0)"
  using assms
proof (induction xs)
  case Nil
  then show ?case by simp
next
  case (Cons x xs)
  show ?case
  proof (cases "key x = k")
    case True
    with Cons.prems have "h = x" and "k \<notin> set (map key xs)" by auto
    then show ?thesis using True by (simp add: filter_out_absent)
  next
    case False
    with Cons.prems have "distinct (map key xs)" and "find (\<lambda>x. key x = k) xs = Some h"
      by auto
    then have "length (filter P xs) =
           length (filter P (filter (\<lambda>x. key x \<noteq> k) xs)) + (if P h then 1 else 0)"
      by (rule Cons.IH)
    then show ?thesis using False by simp
  qed
qed

lemma map_sum_Inr: "map_sum f g x = Inr y \<Longrightarrow> \<exists>z. x = Inr z \<and> g z = y"
  by (cases x) auto

lemma fold_max_ge: "(m::nat) \<le> fold max xs m"
proof (induction xs arbitrary: m)
  case Nil
  then show ?case by simp
next
  case (Cons x xs)
  have "m \<le> max x m" by simp
  also have "\<dots> \<le> fold max xs (max x m)" by (rule Cons.IH)
  finally show ?case by simp
qed

lemma fold_max_member: "x \<in> set xs \<Longrightarrow> (x::nat) \<le> fold max xs m"
proof (induction xs arbitrary: m)
  case Nil
  then show ?case by simp
next
  case (Cons y ys)
  show ?case
  proof (cases "x = y")
    case True
    have "x \<le> max y m" using True by simp
    also have "\<dots> \<le> fold max ys (max y m)" by (rule fold_max_ge)
    finally show ?thesis by simp
  next
    case False
    with Cons.prems have "x \<in> set ys" by simp
    then show ?thesis using Cons.IH by simp
  qed
qed

lemma next_id_fresh: "next_id ids \<notin> set ids"
proof
  assume "next_id ids \<in> set ids"
  then have "next_id ids \<le> fold max ids 0" by (rule fold_max_member)
  then show False by (simp add: next_id_def)
qed

subsection \<open>Durations\<close>

lemma timedelta_us_error: "timedelta_us kw = Inl e \<Longrightarrow> e = TypeError"
  by (induction kw arbitrary: e rule: timedelta_us.induct)
     (auto split: option.splits pyval.splits sum.splits)

lemma timedelta_us_unparseable:
  "(k, v) \<in> set kw \<Longrightarrow> unit_us k = None \<or> (\<exists>s. v = PyStr s) \<Longrightarrow> timedelta_us kw = Inl TypeError"
proof (induction kw rule: timedelta_us.induct)
  case 1
  then show ?case by simp
next
  case (2 k' v' kw)
  show ?case
  proof (cases "unit_us k'")
    case None
    then show ?thesis by simp
  next
    case (Some u)
    show ?thesis
    proof (cases v')
      case (PyStr s)
      with Some show ?thesis by simp
    next
      case (PyInt n)
      with Some 2 have "(k, v) \<in> set kw" by auto
      with 2 Some PyInt have "timedelta_us kw = Inl TypeError" by simp
      with Some PyInt show ?thesis by simp
    qed
  qed
qed

lemma timedelta_nonempty: "timedelta kw = Inr w \<Longrightarrow> w \<noteq> 0 \<Longrightarrow> kw \<noteq> []"
  by (auto simp: timedelta_def us_per_day_def split: if_splits)

lemma timedelta_default: "timedelta (grace None) = Inr (7 * us_per_day)"
  by (simp add: grace_def timedelta_def unit_us_def us_per_day_def)

subsection \<open>Updating an aggregate row\<close>

lemma r_id_HitCount_update: "r_id (HitCount_update i s r) = r_id r"
  by (simp add: HitCount_update_def)

lemma hitcount_row_of_update:
  "hitcount_row_of (db\<lparr>hitcount_table := map (HitCount_update i s) (hitcount_table db)\<rparr>) b =
     map_option (HitCount_update i s) (hitcount_row_of db b)"
  by (simp add: hitcount_row_of_def find_map_key r_id_HitCount_update)

lemma hitcount_row_of_key: "hitcount_row_of db a = Some r \<Longrightarrow> r_id r = a"
  unfolding hitcount_row_of_def by (rule find_key)

lemma stored_hits_update:
  "stored_hits (db\<lparr>hitcount_table := map (HitCount_update a s) (hitcount_table db)\<rparr>) b =
     (if b = a then map_option (eval_expr (hits s)) (stored_hits db a) else stored_hits db b)"
proof (cases "hitcount_row_of db b")
  case None
  then show ?thesis by (auto simp: stored_hits_def hitcount_row_of_update)
next
  case (Some r)
  then have "r_id r = b" by (rule hitcount_row_of_key)
  with Some show ?thesis
    by (auto simp: stored_hits_def hitcount_row_of_update HitCount_update_def)
qed

lemma stored_modified_update:
  "stored_modified (db\<lparr>hitcount_table := map (HitCount_update a s) (hitcount_table db)\<rparr>) b =
     (if b = a then map_option (\<lambda>t. modified s) (stored_modified db a) else stored_modified db b)"
proof (cases "hitcount_row_of db b")
  case None
  then show ?thesis by (auto simp: stored_modified_def hitcount_row_of_update)
next
  case (Some r)
  then have "r_id r = b" by (rule hitcount_row_of_key)
  with Some show ?thesis
    by (auto simp: stored_modified_def hitcount_row_of_update HitCount_update_def)
qed

lemma stored_hits_row: "stored_hits db a = Some n \<Longrightarrow> \<exists>r. hitcount_row_of db a = Some r"
  by (auto simp: stored_hits_def)

lemma stored_modified_of_hits: "stored_hits db a = Some n \<Longrightarrow> \<exists>t. stored_modified db a = Some t"
  by (auto simp: stored_hits_def stored_modified_def)

lemma stored_hits_table:
  "hitcount_table db' = hitcount_table db \<Longrightarrow> stored_hits db' = stored_hits db"
  by (auto simp: stored_hits_def hitcount_row_of_def fun_eq_iff)

lemma stored_modified_table:
  "hitcount_table db' = hitcount_table db \<Longrightarrow> stored_modified db' = stored_modified db"
  by (auto simp: stored_modified_def hitcount_row_of_def fun_eq_iff)

lemma HitCount_save_stored:
  assumes "hc_pk self = Some a" and "stored_hits db a = Some n"
  shows "HitCount_save now self db =
           Inr (db\<lparr>hitcount_table := map (HitCount_update a (self\<lparr>modified := now\<rparr>)) (hitcount_table db)\<rparr>,
                self\<lparr>modified := now\<rparr>)"
  using assms stored_hits_row [OF assms(2)]
  by (auto simp: HitCount_save_def HitCount_base_save_def)

lemma HitCount_save_F:
  assumes "hc_pk hc = Some a" and "stored_hits db a = Some n"
  shows "\<exists>db1. HitCount_save now (hc\<lparr>hits := e\<rparr>) db = Inr (db1, hc\<lparr>hits := e, modified := now\<rparr>) \<and>
           hit_table db1 = hit_table db \<and>
           stored_hits db1 a = Some (eval_expr e n) \<and>
           stored_modified db1 a = Some now \<and>
           (\<forall>b. b \<noteq> a \<longrightarrow> stored_hits db1 b = stored_hits db b \<and>
                             stored_modified db1 b = stored_modified db b)"
proof -
  let ?s = "hc\<lparr>hits := e, modified := now\<rparr>"
  let ?db1 = "db\<lparr>hitcount_table := map (HitCount_update a ?s) (hitcount_table db)\<rparr>"
  have "hc_pk (hc\<lparr>hits := e\<rparr>) = Some a" using assms(1) by simp
  then have "HitCount_save now (hc\<lparr>hits := e\<rparr>) db = Inr (?db1, ?s)"
    using assms(2) by (simp add: HitCount_save_stored)
  moreover have "hit_table ?db1 = hit_table db" by simp
  moreover have "stored_hits ?db1 a = Some (eval_expr e n)"
    using assms(2) by (simp add: stored_hits_update)
  moreover have "stored_modified ?db1 a = Some now"
    using stored_modified_of_hits [OF assms(2)] by (auto simp: stored_modified_update)
  moreover have "\<forall>b. b \<noteq> a \<longrightarrow> stored_hits ?db1 b = stored_hits db b \<and>
                             stored_modified ?db1 b = stored_modified db b"
    by (simp add: stored_hits_update stored_modified_update)
  ultimately show ?thesis by blast
qed

lemma HitCount_save_modified:
  assumes "HitCount_save now self db = Inr (db1, self1)"
  shows "modified self1 = now \<and> (\<exists>a. hc_pk self1 = Some a \<and> stored_modified db1 a = Some now)"
proof -
  let ?s = "self\<lparr>modified := now\<rparr>"
  have ins: "modified self1 = now \<and> hc_pk self1 = Some i \<and> stored_modified db1 i = Some now"
    if "HitCount_insert i ?s db = Inr (db1, self1)" and "hitcount_row_of db i = None" for i
  proof (cases "hits self")
    case (Const v)
    with that show ?thesis
      by (auto simp: HitCount_insert_def stored_modified_def hitcount_row_of_def find_append_key)
  qed (use that in \<open>simp_all add: HitCount_insert_def\<close>)
  show ?thesis
  proof (cases "hc_pk self")
    case None
    let ?i = "next_id (map r_id (hitcount_table db))"
    have "hitcount_row_of db ?i = None"
      unfolding hitcount_row_of_def by (rule find_fresh) (rule next_id_fresh)
    moreover have "HitCount_insert ?i ?s db = Inr (db1, self1)"
      using assms None by (simp add: HitCount_save_def HitCount_base_save_def)
    ultimately show ?thesis using ins by blast
  next
    case (Some i)
    note pk = this
    show ?thesis
    proof (cases "hitcount_row_of db i")
      case None
      moreover have "HitCount_insert i ?s db = Inr (db1, self1)"
        using assms pk None by (simp add: HitCount_save_def HitCount_base_save_def)
      ultimately show ?thesis using ins by blast
    next
      case (Some r)
      then have eq: "db1 = db\<lparr>hitcount_table := map (HitCount_update i ?s) (hitcount_table db)\<rparr>"
        "self1 = ?s"
        using assms pk by (auto simp: HitCount_save_def HitCount_base_save_def)
      have "stored_modified db i = Some (r_modified r)"
        using Some by (simp add: stored_modified_def)
      then have "stored_modified db1 i = Some now"
        unfolding eq by (simp add: stored_modified_update)
      then show ?thesis using pk eq(2) by simp
    qed
  qed
qed

subsection \<open>Saving and deleting a hit\<close>

lemma Hit_base_save_created:
  assumes "created self = Some c"
  shows "\<exists>db' k. Hit_base_save self db = Inr (db', self\<lparr>hit_pk := Some k\<rparr>) \<and>
           hitcount_table db' = hitcount_table db \<and> stored_created db' k = Some c \<and>
           (hit_pk self = None \<or> hit_pk self = Some k)"
proof (cases "hit_pk self")
  case None
  let ?k = "next_id (map h_id (hit_table db))"
  have "find (\<lambda>h. h_id h = ?k) (hit_table db) = None"
    by (rule find_fresh) (rule next_id_fresh)
  then have "stored_created (fst (Hit_insert ?k c self db)) ?k = Some c"
    by (simp add: stored_created_def hit_row_of_def Hit_insert_def find_append_key
        Hit_row_of_instance_def)
  then show ?thesis using None assms
    by (auto simp: Hit_base_save_def Hit_insert_def)
next
  case (Some i)
  note pk = this
  show ?thesis
  proof (cases "hit_row_of db i")
    case None
    then have "stored_created (fst (Hit_insert i c self db)) i = Some c"
      by (simp add: stored_created_def hit_row_of_def Hit_insert_def find_append_key
          Hit_row_of_instance_def)
    then show ?thesis using None pk assms
      by (auto simp: Hit_base_save_def Hit_insert_def)
  next
    case (Some h)
    note row = this
    then have "h_id h = i" unfolding hit_row_of_def by (rule find_key)
    have key: "\<And>x. h_id (Hit_update i c self x) = h_id x"
      by (simp add: Hit_update_def Hit_row_of_instance_def)
    have "stored_created (db\<lparr>hit_table := map (Hit_update i c self) (hit_table db)\<rparr>) i = Some c"
      using row \<open>h_id h = i\<close>
      by (simp add: stored_created_def hit_row_of_def find_map_key [of h_id, OF key]
          Hit_update_def Hit_row_of_instance_def)
    moreover have "self\<lparr>hit_pk := Some i\<rparr> = self" using pk by simp
    moreover have "Hit_base_save self db =
        Inr (db\<lparr>hit_table := map (Hit_update i c self) (hit_table db)\<rparr>, self)"
      using pk row assms by (simp add: Hit_base_save_def)
    ultimately show ?thesis using pk
      by (intro exI [of _ "db\<lparr>hit_table := map (Hit_update i c self) (hit_table db)\<rparr>"]
          exI [of _ i]) simp
  qed
qed

lemma Hit_save_first:
  assumes "created self = None" and "Hit_hitcount self db = Inr hc"
    and "hc_pk hc = Some a" and "stored_hits db a = Some n"
  shows "\<exists>db1 self1 k. Hit_save t_mod t_cre self db = Inr (db1, self1) \<and>
           created self1 = Some t_cre \<and> hit_pk self1 = Some k \<and>
           hitcount_id self1 = hitcount_id self \<and>
           stored_created db1 k = Some t_cre \<and>
           stored_hits db1 a = Some (n + 1) \<and>
           stored_modified db1 a = Some t_mod \<and>
           (\<forall>b. b \<noteq> a \<longrightarrow> stored_hits db1 b = stored_hits db b \<and>
                             stored_modified db1 b = stored_modified db b)"
proof -
  let ?e = "Plus F_hits (Const 1)"
  obtain dbm where m: "HitCount_save t_mod (hc\<lparr>hits := ?e\<rparr>) db = Inr (dbm, hc\<lparr>hits := ?e, modified := t_mod\<rparr>)"
    and mh: "stored_hits dbm a = Some (eval_expr ?e n)"
    and mm: "stored_modified dbm a = Some t_mod"
    and mo: "\<forall>b. b \<noteq> a \<longrightarrow> stored_hits dbm b = stored_hits db b \<and>
                             stored_modified dbm b = stored_modified db b"
    using HitCount_save_F [OF assms(3,4), of t_mod ?e] by blast
  let ?self = "self\<lparr>hitcount_cache := Some (hc\<lparr>hits := ?e, modified := t_mod\<rparr>), created := Some t_cre\<rparr>"
  have "created ?self = Some t_cre" by simp
  from Hit_base_save_created [OF this, of dbm]
  obtain db1 k where b: "Hit_base_save ?self dbm = Inr (db1, ?self\<lparr>hit_pk := Some k\<rparr>)"
    and bt: "hitcount_table db1 = hitcount_table dbm"
    and bc: "stored_created db1 k = Some t_cre"
    by blast
  have "Hit_save t_mod t_cre self db = Inr (db1, ?self\<lparr>hit_pk := Some k\<rparr>)"
    using assms(1,2) m b by (simp add: Hit_save_def)
  moreover have "created (?self\<lparr>hit_pk := Some k\<rparr>) = Some t_cre"
    and "hit_pk (?self\<lparr>hit_pk := Some k\<rparr>) = Some k"
    and "hitcount_id (?self\<lparr>hit_pk := Some k\<rparr>) = hitcount_id self"
    by simp_all
  moreover have "stored_hits db1 a = Some (n + 1)"
    using mh stored_hits_table [OF bt] by simp
  moreover have "stored_modified db1 a = Some t_mod"
    using mm stored_modified_table [OF bt] by simp
  moreover have "\<forall>b. b \<noteq> a \<longrightarrow> stored_hits db1 b = stored_hits db b \<and>
                             stored_modified db1 b = stored_modified db b"
    using mo stored_hits_table [OF bt] stored_modified_table [OF bt] by simp
  ultimately show ?thesis using bc by blast
qed

lemma Hit_save_again:
  assumes "created self = Some c"
  shows "\<exists>db1 self1 k. Hit_save t_mod t_cre self db = Inr (db1, self1) \<and>
           created self1 = Some c \<and> hit_pk self1 = Some k \<and>
           (hit_pk self = None \<or> hit_pk self = Some k) \<and>
           stored_created db1 k = Some c \<and>
           hitcount_table db1 = hitcount_table db"
proof -
  from Hit_base_save_created [OF assms, of db]
  obtain db1 k where b: "Hit_base_save self db = Inr (db1, self\<lparr>hit_pk := Some k\<rparr>)"
    and bt: "hitcount_table db1 = hitcount_table db"
    and bc: "stored_created db1 k = Some c"
    and bk: "hit_pk self = None \<or> hit_pk self = Some k"
    by blast
  have "Hit_save t_mod t_cre self db = Inr (db1, self\<lparr>hit_pk := Some k\<rparr>)"
    using assms b by (simp add: Hit_save_def)
  moreover have "created (self\<lparr>hit_pk := Some k\<rparr>) = Some c"
    and "hit_pk (self\<lparr>hit_pk := Some k\<rparr>) = Some k"
    using assms by simp_all
  ultimately show ?thesis using bt bc bk by blast
qed

lemma subtract_hit_count_stored:
  assumes "Hit_hitcount instance db = Inr hc" and "hc_pk hc = Some a"
    and "stored_hits db a = Some n"
  shows "\<exists>db1 instance1. subtract_hit_count now instance db = Inr (db1, instance1) \<and>
           hit_table db1 = hit_table db \<and>
           hit_pk instance1 = hit_pk instance \<and>
           stored_hits db1 a = Some (n - 1) \<and>
           stored_modified db1 a = Some now \<and>
           (\<forall>b. b \<noteq> a \<longrightarrow> stored_hits db1 b = stored_hits db b \<and>
                             stored_modified db1 b = stored_modified db b)"
proof -
  let ?e = "Minus F_hits (Const 1)"
  obtain dbm where m: "HitCount_save now (hc\<lparr>hits := ?e\<rparr>) db = Inr (dbm, hc\<lparr>hits := ?e, modified := now\<rparr>)"
    and mt: "hit_table dbm = hit_table db"
    and mh: "stored_hits dbm a = Some (eval_expr ?e n)"
    and mm: "stored_modified dbm a = Some now"
    and mo: "\<forall>b. b \<noteq> a \<longrightarrow> stored_hits dbm b = stored_hits db b \<and>
                             stored_modified dbm b = stored_modified db b"
    using HitCount_save_F [OF assms(2,3), of now ?e] by blast
  have "subtract_hit_count now instance db =
          Inr (dbm, instance\<lparr>hitcount_cache := Some (hc\<lparr>hits := ?e, modified := now\<rparr>)\<rparr>)"
    using assms(1) m by (simp add: subtract_hit_count_def)
  moreover have "hit_pk (instance\<lparr>hitcount_cache := Some (hc\<lparr>hits := ?e, modified := now\<rparr>)\<rparr>) =
      hit_pk instance"
    by simp
  moreover have "stored_hits dbm a = Some (n - 1)" using mh by simp
  ultimately show ?thesis using mt mm mo by blast
qed

lemma Hit_delete_stored:
  assumes "hit_pk self = Some k" and "Hit_hitcount self db = Inr hc" and "hc_pk hc = Some a"
    and "stored_hits db a = Some n"
  shows "\<exists>db1 self1. Hit_delete now self db = Inr (db1, self1) \<and>
           hit_table db1 = filter (\<lambda>h. h_id h \<noteq> k) (hit_table db) \<and>
           hit_pk self1 = None \<and>
           stored_hits db1 a = Some (n - 1) \<and>
           stored_modified db1 a = Some now \<and>
           (\<forall>b. b \<noteq> a \<longrightarrow> stored_hits db1 b = stored_hits db b \<and>
                             stored_modified db1 b = stored_modified db b)"
proof -
  from subtract_hit_count_stored [OF assms(2-4), of now]
  obtain dbm selfm where s: "subtract_hit_count now self db = Inr (dbm, selfm)"
    and st: "hit_table dbm = hit_table db"
    and sh: "stored_hits dbm a = Some (n - 1)"
    and sm: "stored_modified dbm a = Some now"
    and so: "\<forall>b. b \<noteq> a \<longrightarrow> stored_hits dbm b = stored_hits db b \<and>
                             stored_modified dbm b = stored_modified db b"
    by blast
  let ?db1 = "dbm\<lparr>hit_table := filter (\<lambda>h. h_id h \<noteq> k) (hit_table dbm)\<rparr>"
  have "Hit_delete now self db = Inr (?db1, selfm\<lparr>hit_pk := None\<rparr>)"
    using assms(1) s by (simp add: Hit_delete_def)
  moreover have t: "hitcount_table ?db1 = hitcount_table dbm" by simp
  have "hit_table ?db1 = filter (\<lambda>h. h_id h \<noteq> k) (hit_table db)"
    using st by simp
  moreover have "hit_pk (selfm\<lparr>hit_pk := None\<rparr>) = None" by simp
  moreover have "stored_hits ?db1 a = Some (n - 1)"
    using sh stored_hits_table [OF t] by simp
  moreover have "stored_modified ?db1 a = Some now"
    using sm stored_modified_table [OF t] by simp
  moreover have "\<forall>b. b \<noteq> a \<longrightarrow> stored_hits ?db1 b = stored_hits db b \<and>
                             stored_modified ?db1 b = stored_modified db b"
    using so stored_hits_table [OF t] stored_modified_table [OF t] by simp
  ultimately show ?thesis by blast
qed

subsection \<open>The window query\<close>

lemma hits_in_last_window:
  assumes "hc_pk self = Some a" and "kw \<noteq> []" and "timedelta kw = Inr w"
    and "0 \<le> now - w" and "now - w < datetime_range"
  shows "hits_in_last now self kw db =
           Inr (length (filter (\<lambda>h. h_hitcount_id h = a \<and> now - w \<le> h_created h) (hit_table db)))"
proof -
  have "filter (\<lambda>h. now - w \<le> h_created h) (hit_set self db) =
        filter (\<lambda>h. h_hitcount_id h = a \<and> now - w \<le> h_created h) (hit_table db)"
    unfolding hit_set_def filter_filter_conj using assms(1)
    by (intro filter_cong) auto
  then show ?thesis
    using assms(2-5) by (simp add: hits_in_last_def datetime_sub_def)
qed

subsection \<open>The effect of each call on the tables\<close>

lemma HitCount_get_row:
  "HitCount_get db a = Inr hc \<Longrightarrow> \<exists>r. hitcount_row_of db a = Some r \<and> hc = HitCount_of_row r"
  by (auto simp: HitCount_get_def split: option.splits)

lemma Hit_get_row:
  "Hit_get db k = Inr h \<Longrightarrow> \<exists>x. hit_row_of db k = Some x \<and> h = Hit_of_row x"
  by (auto simp: Hit_get_def split: option.splits)

lemma exec_View_tables:
  assumes "exec (View a i s u usr t_mod t_cre) db = Inr db'"
  shows "\<exists>r h. hitcount_row_of db a = Some r \<and>
           hitcount_table db' =
             map (HitCount_update a ((HitCount_of_row r)\<lparr>hits := Plus F_hits (Const 1), modified := t_mod\<rparr>))
               (hitcount_table db) \<and>
           hit_table db' = hit_table db @ [h] \<and>
           h_id h = next_id (map h_id (hit_table db)) \<and> h_hitcount_id h = a"
proof -
  from assms obtain hc where g: "HitCount_get db a = Inr hc"
    by (auto split: sum.splits)
  then obtain r where r: "hitcount_row_of db a = Some r" "hc = HitCount_of_row r"
    using HitCount_get_row by blast
  have pk: "hc_pk hc = Some a" using r(2) hitcount_row_of_key [OF r(1)] by (simp add: HitCount_of_row_def)
  show ?thesis
    using assms g r pk
    by (auto simp: Hit_save_def new_Hit_def Hit_hitcount_def HitCount_save_def
        HitCount_base_save_def Hit_base_save_def Hit_insert_def Hit_row_of_instance_def)
qed

lemma exec_Delete_tables:
  assumes "exec (Delete k t) db = Inr db'"
  shows "\<exists>h r. hit_row_of db k = Some h \<and> hitcount_row_of db (h_hitcount_id h) = Some r \<and>
           hitcount_table db' =
             map (HitCount_update (h_hitcount_id h)
                    ((HitCount_of_row r)\<lparr>hits := Minus F_hits (Const 1), modified := t\<rparr>))
               (hitcount_table db) \<and>
           hit_table db' = filter (\<lambda>x. h_id x \<noteq> k) (hit_table db)"
proof -
  from assms obtain hi where g: "Hit_get db k = Inr hi"
    by (auto split: sum.splits)
  then obtain h where h: "hit_row_of db k = Some h" "hi = Hit_of_row h"
    using Hit_get_row by blast
  have k: "h_id h = k" using h(1) unfolding hit_row_of_def by (rule find_key)
  from assms g h obtain hc where c: "HitCount_get db (h_hitcount_id h) = Inr hc"
    by (auto simp: Hit_delete_def subtract_hit_count_def Hit_hitcount_def Hit_of_row_def
        split: sum.splits)
  then obtain r where r: "hitcount_row_of db (h_hitcount_id h) = Some r" "hc = HitCount_of_row r"
    using HitCount_get_row by blast
  have pk: "hc_pk hc = Some (h_hitcount_id h)"
    using r(2) hitcount_row_of_key [OF r(1)] by (simp add: HitCount_of_row_def)
  show ?thesis
    using assms g h k c r pk
    by (auto simp: Hit_delete_def subtract_hit_count_def Hit_hitcount_def Hit_of_row_def
        HitCount_save_def HitCount_base_save_def)
qed

lemma exec_Touch_tables:
  assumes "exec (Touch a t) db = Inr db'"
  shows "\<exists>r. hitcount_row_of db a = Some r \<and>
           hitcount_table db' =
             map (HitCount_update a ((HitCount_of_row r)\<lparr>modified := t\<rparr>)) (hitcount_table db) \<and>
           hit_table db' = hit_table db"
proof -
  from assms obtain hc where g: "HitCount_get db a = Inr hc"
    by (auto split: sum.splits)
  then obtain r where r: "hitcount_row_of db a = Some r" "hc = HitCount_of_row r"
    using HitCount_get_row by blast
  have pk: "hc_pk hc = Some a" using r(2) hitcount_row_of_key [OF r(1)] by (simp add: HitCount_of_row_def)
  show ?thesis
    using assms g r pk
    by (auto simp: HitCount_save_def HitCount_base_save_def)
qed

lemma exec_Resave_tables:
  assumes "exec (Resave k t_mod t_cre) db = Inr db'"
  shows "\<exists>h. hit_row_of db k = Some h \<and> hitcount_table db' = hitcount_table db \<and>
           hit_table db' = map (Hit_update k (h_created h) (Hit_of_row h)) (hit_table db)"
proof -
  from assms obtain hi where g: "Hit_get db k = Inr hi"
    by (auto split: sum.splits)
  then obtain h where h: "hit_row_of db k = Some h" "hi = Hit_of_row h"
    using Hit_get_row by blast
  have k: "h_id h = k" using h(1) unfolding hit_row_of_def by (rule find_key)
  show ?thesis
    using assms g h k
    by (auto simp: Hit_save_def Hit_base_save_def Hit_of_row_def)
qed

lemma exec_Query_last: "exec (Query_last a kw t) db = Inr db' \<Longrightarrow> db' = db"
  by (auto split: sum.splits dest: map_sum_Inr)

lemma exec_Query_active: "exec (Query_active setting t) db = Inr db' \<Longrightarrow> db' = db"
  by (auto dest: map_sum_Inr)

subsection \<open>Counters and stored hits\<close>

lemma consistentI:
  assumes "distinct (map r_id (hitcount_table db))" and "distinct (map h_id (hit_table db))"
    and "\<And>r. r \<in> set (hitcount_table db) \<Longrightarrow> r_hits r = int (hit_count db (r_id r))"
  shows "consistent db"
  using assms by (simp add: consistent_def list_all_iff)

lemma consistent_hits:
  "consistent db \<Longrightarrow> r \<in> set (hitcount_table db) \<Longrightarrow> r_hits r = int (hit_count db (r_id r))"
  by (simp add: consistent_def list_all_iff)

lemma consistent_distinct:
  "consistent db \<Longrightarrow> distinct (map r_id (hitcount_table db))"
  "consistent db \<Longrightarrow> distinct (map h_id (hit_table db))"
  by (simp_all add: consistent_def)

lemma map_r_id_update: "map r_id (map (HitCount_update a s) tbl) = map r_id tbl"
  by (simp add: r_id_HitCount_update)

lemma hit_count_append:
  "hit_table db' = hit_table db @ [h] \<Longrightarrow>
     hit_count db' b = hit_count db b + (if h_hitcount_id h = b then 1 else 0)"
  by (simp add: hit_count_def)

lemma hit_count_same: "hit_table db' = hit_table db \<Longrightarrow> hit_count db' b = hit_count db b"
  by (simp add: hit_count_def)

lemma hit_count_remove:
  assumes "distinct (map h_id (hit_table db))" and "hit_row_of db k = Some h"
    and "hit_table db' = filter (\<lambda>x. h_id x \<noteq> k) (hit_table db)"
  shows "hit_count db b = hit_count db' b + (if h_hitcount_id h = b then 1 else 0)"
  using length_filter_remove [OF assms(1), of k h "\<lambda>x. h_hitcount_id x = b"] assms(2,3)
  by (simp add: hit_count_def hit_row_of_def)

lemma Hit_update_same:
  assumes "distinct (map h_id tbl)" and "find (\<lambda>x. h_id x = k) tbl = Some h"
  shows "map (Hit_update k (h_created h) (Hit_of_row h)) tbl = tbl"
proof (rule map_idI)
  fix x assume x: "x \<in> set tbl"
  from assms(2) have h: "h \<in> set tbl" "h_id h = k" using find_mem by fastforce+
  show "Hit_update k (h_created h) (Hit_of_row h) x = x"
  proof (cases "h_id x = k")
    case True
    with h x assms(1) have "x = h" by (auto simp: distinct_map dest: inj_onD)
    then show ?thesis using h(2)
      by (simp add: Hit_update_def Hit_row_of_instance_def Hit_of_row_def)
  next
    case False
    then show ?thesis by (simp add: Hit_update_def)
  qed
qed

lemma hitcount_row_of_mem: "hitcount_row_of db a = Some r \<Longrightarrow> r \<in> set (hitcount_table db)"
  unfolding hitcount_row_of_def using find_mem by fastforce

lemma consistent_View:
  assumes "consistent db" and "exec (View a i s u usr t_mod t_cre) db = Inr db'"
  shows "consistent db'"
proof -
  from exec_View_tables [OF assms(2)]
  obtain r h where hc: "hitcount_table db' =
             map (HitCount_update a ((HitCount_of_row r)\<lparr>hits := Plus F_hits (Const 1), modified := t_mod\<rparr>))
               (hitcount_table db)"
    and ht: "hit_table db' = hit_table db @ [h]"
    and hk: "h_id h = next_id (map h_id (hit_table db))" and ha: "h_hitcount_id h = a"
    by blast
  show ?thesis
  proof (rule consistentI)
    show "distinct (map r_id (hitcount_table db'))"
      unfolding hc map_r_id_update using assms(1) by (rule consistent_distinct)
    show "distinct (map h_id (hit_table db'))"
      unfolding ht using consistent_distinct(2) [OF assms(1)] hk next_id_fresh [of "map h_id (hit_table db)"]
      by simp
    fix x assume "x \<in> set (hitcount_table db')"
    then obtain y where y: "y \<in> set (hitcount_table db)"
      and x: "x = HitCount_update a ((HitCount_of_row r)\<lparr>hits := Plus F_hits (Const 1), modified := t_mod\<rparr>) y"
      unfolding hc by auto
    have "r_hits y = int (hit_count db (r_id y))" using assms(1) y by (rule consistent_hits)
    then show "r_hits x = int (hit_count db' (r_id x))"
      unfolding x using ha by (simp add: HitCount_update_def hit_count_append [OF ht])
  qed
qed

lemma consistent_Delete:
  assumes "consistent db" and "exec (Delete k t) db = Inr db'"
  shows "consistent db'"
proof -
  from exec_Delete_tables [OF assms(2)]
  obtain h r where hr: "hit_row_of db k = Some h"
    and hc: "hitcount_table db' =
             map (HitCount_update (h_hitcount_id h)
                    ((HitCount_of_row r)\<lparr>hits := Minus F_hits (Const 1), modified := t\<rparr>))
               (hitcount_table db)"
    and ht: "hit_table db' = filter (\<lambda>x. h_id x \<noteq> k) (hit_table db)"
    by blast
  note cnt = hit_count_remove [OF consistent_distinct(2) [OF assms(1)] hr ht]
  show ?thesis
  proof (rule consistentI)
    show "distinct (map r_id (hitcount_table db'))"
      unfolding hc map_r_id_update using assms(1) by (rule consistent_distinct)
    show "distinct (map h_id (hit_table db'))"
      unfolding ht using consistent_distinct(2) [OF assms(1)] by (simp add: distinct_map_filter)
    fix x assume "x \<in> set (hitcount_table db')"
    then obtain y where y: "y \<in> set (hitcount_table db)"
      and x: "x = HitCount_update (h_hitcount_id h)
                    ((HitCount_of_row r)\<lparr>hits := Minus F_hits (Const 1), modified := t\<rparr>) y"
      unfolding hc by auto
    have "r_hits y = int (hit_count db (r_id y))" using assms(1) y by (rule consistent_hits)
    then show "r_hits x = int (hit_count db' (r_id x))"
      unfolding x using cnt [of "r_id y"] by (simp add: HitCount_update_def)
  qed
qed

lemma consistent_Touch:
  assumes "consistent db" and "exec (Touch a t) db = Inr db'"
  shows "consistent db'"
proof -
  from exec_Touch_tables [OF assms(2)]
  obtain r where rr: "hitcount_row_of db a = Some r"
    and hc: "hitcount_table db' =
             map (HitCount_update a ((HitCount_of_row r)\<lparr>modified := t\<rparr>)) (hitcount_table db)"
    and ht: "hit_table db' = hit_table db"
    by blast
  have ra: "r_id r = a" using rr by (rule hitcount_row_of_key)
  have rh: "r_hits r = int (hit_count db a)"
    using consistent_hits [OF assms(1) hitcount_row_of_mem [OF rr]] ra by simp
  show ?thesis
  proof (rule consistentI)
    show "distinct (map r_id (hitcount_table db'))"
      unfolding hc map_r_id_update using assms(1) by (rule consistent_distinct)
    show "distinct (map h_id (hit_table db'))"
      unfolding ht using assms(1) by (rule consistent_distinct)
    fix x assume "x \<in> set (hitcount_table db')"
    then obtain y where y: "y \<in> set (hitcount_table db)"
      and x: "x = HitCount_update a ((HitCount_of_row r)\<lparr>modified := t\<rparr>) y"
      unfolding hc by auto
    have "r_hits y = int (hit_count db (r_id y))" using assms(1) y by (rule consistent_hits)
    then show "r_hits x = int (hit_count db' (r_id x))"
      unfolding x using rh
      by (simp add: HitCount_update_def HitCount_of_row_def hit_count_same [OF ht])
  qed
qed

lemma consistent_Resave:
  assumes "consistent db" and "exec (Resave k t_mod t_cre) db = Inr db'"
  shows "consistent db'"
proof -
  from exec_Resave_tables [OF assms(2)]
  obtain h where hr: "hit_row_of db k = Some h"
    and hc: "hitcount_table db' = hitcount_table db"
    and ht: "hit_table db' = map (Hit_update k (h_created h) (Hit_of_row h)) (hit_table db)"
    by blast
  have "hit_table db' = hit_table db"
    unfolding ht using consistent_distinct(2) [OF assms(1)] hr
    unfolding hit_row_of_def by (rule Hit_update_same)
  with hc assms(1) show ?thesis
    by (simp add: consistent_def hit_count_def)
qed

lemma consistent_exec:
  assumes "consistent db" and "exec c db = Inr db'"
  shows "consistent db'"
proof (cases c)
  case (View a i s u usr t_mod t_cre)
  with assms show ?thesis using consistent_View by blast
next
  case (Resave k t_mod t_cre)
  with assms show ?thesis using consistent_Resave by blast
next
  case (Delete k t)
  with assms show ?thesis using consistent_Delete by blast
next
  case (Touch a t)
  with assms show ?thesis using consistent_Touch by blast
next
  case (Query_last a kw t)
  with assms show ?thesis using exec_Query_last by blast
next
  case (Query_active setting t)
  with assms show ?thesis using exec_Query_active by blast
qed

lemma consistent_run:
  "consistent db \<Longrightarrow> run cs db = Inr db' \<Longrightarrow> consistent db'"
proof (induction cs arbitrary: db)
  case Nil
  then show ?case by simp
next
  case (Cons c cs)
  from Cons.prems(2) obtain db1 where e: "exec c db = Inr db1" and r: "run cs db1 = Inr db'"
    by (auto split: sum.splits)
  have "consistent db1" using Cons.prems(1) e by (rule consistent_exec)
  then show ?case using r by (rule Cons.IH)
qed

lemma consistent_stored:
  assumes "consistent db" and "stored_hits db a = Some m"
  shows "m = int (hit_count db a)"
proof -
  from assms(2) obtain r where r: "hitcount_row_of db a = Some r" and m: "m = r_hits r"
    by (auto simp: stored_hits_def)
  have "r_id r = a" using r by (rule hitcount_row_of_key)
  then show ?thesis
    using consistent_hits [OF assms(1) hitcount_row_of_mem [OF r]] m by simp
qed

lemma stored_hits_after_update:
  assumes "hitcount_table db' = map (HitCount_update b s) (hitcount_table db)"
  shows "stored_hits db' a =
           (if a = b then map_option (eval_expr (hits s)) (stored_hits db b) else stored_hits db a)"
proof -
  have "hitcount_table db' =
        hitcount_table (db\<lparr>hitcount_table := map (HitCount_update b s) (hitcount_table db)\<rparr>)"
    using assms by simp
  then have "stored_hits db' =
        stored_hits (db\<lparr>hitcount_table := map (HitCount_update b s) (hitcount_table db)\<rparr>)"
    by (rule stored_hits_table)
  then show ?thesis by (simp add: stored_hits_update)
qed

lemma exec_stored_hits:
  assumes "\<not> is_delete c" and "exec c db = Inr db'" and "stored_hits db a = Some n"
  shows "stored_hits db' a = Some (n + (if is_view_on a c then 1 else 0))"
proof (cases c)
  case (View b i s u usr t_mod t_cre)
  from exec_View_tables [OF assms(2) [unfolded View]]
  obtain r where "hitcount_table db' =
             map (HitCount_update b ((HitCount_of_row r)\<lparr>hits := Plus F_hits (Const 1), modified := t_mod\<rparr>))
               (hitcount_table db)"
    by blast
  from stored_hits_after_update [OF this, of a] show ?thesis
    using View assms(3) by auto
next
  case (Resave k t_mod t_cre)
  from exec_Resave_tables [OF assms(2) [unfolded Resave]]
  have "hitcount_table db' = hitcount_table db" by blast
  then have "stored_hits db' = stored_hits db" by (rule stored_hits_table)
  then show ?thesis using Resave assms(3) by simp
next
  case (Delete k t)
  with assms(1) show ?thesis by simp
next
  case (Touch b t)
  from exec_Touch_tables [OF assms(2) [unfolded Touch]]
  obtain r where r: "hitcount_row_of db b = Some r"
    and t: "hitcount_table db' =
             map (HitCount_update b ((HitCount_of_row r)\<lparr>modified := t\<rparr>)) (hitcount_table db)"
    by blast
  have "stored_hits db b = Some (r_hits r)" using r by (simp add: stored_hits_def)
  with stored_hits_after_update [OF t, of a] show ?thesis
    using Touch assms(3) by (auto simp: HitCount_of_row_def)
next
  case (Query_last b kw t)
  with assms(2) have "db' = db" using exec_Query_last by blast
  then show ?thesis using Query_last assms(3) by simp
next
  case (Query_active setting t)
  with assms(2) have "db' = db" using exec_Query_active by blast
  then show ?thesis using Query_active assms(3) by simp
qed

lemma run_stored_hits:
  "list_all (\<lambda>c. \<not> is_delete c) cs \<Longrightarrow> run cs db = Inr db' \<Longrightarrow> stored_hits db a = Some n \<Longrightarrow>
     stored_hits db' a = Some (n + int (length (filter (is_view_on a) cs)))"
proof (induction cs arbitrary: db n)
  case Nil
  then show ?case by simp
next
  case (Cons c cs)
  from Cons.prems(2) obtain db1 where e: "exec c db = Inr db1" and r: "run cs db1 = Inr db'"
    by (auto split: sum.splits)
  from Cons.prems(1) have nd: "\<not> is_delete c" and rest: "list_all (\<lambda>c. \<not> is_delete c) cs"
    by simp_all
  have "stored_hits db1 a = Some (n + (if is_view_on a c then 1 else 0))"
    using nd e Cons.prems(3) by (rule exec_stored_hits)
  from Cons.IH [OF rest r this] show ?case by simp
qed

lemma exec_View_succeeds:
  assumes "stored_hits db a = Some n"
  shows "\<exists>db1. exec (View a i s u usr t_mod t_cre) db = Inr db1"
proof -
  from assms obtain r where r: "hitcount_row_of db a = Some r"
    using stored_hits_row by blast
  let ?hc = "HitCount_of_row r"
  have g: "HitCount_get db a = Inr ?hc" using r by (simp add: HitCount_get_def)
  have "hc_pk ?hc = Some a"
    using hitcount_row_of_key [OF r] by (simp add: HitCount_of_row_def)
  moreover have "created (new_Hit ?hc a i s u usr) = None"
    and "Hit_hitcount (new_Hit ?hc a i s u usr) db = Inr ?hc"
    by (simp_all add: new_Hit_def Hit_hitcount_def)
  ultimately obtain db1 self1 where
    "Hit_save t_mod t_cre (new_Hit ?hc a i s u usr) db = Inr (db1, self1)"
    using Hit_save_first [of "new_Hit ?hc a i s u usr" db ?hc a n t_mod t_cre] assms by blast
  then show ?thesis using g by simp
qed

lemma is_view_on_cases:
  "is_view_on a c \<Longrightarrow> \<exists>i s u usr t_mod t_cre. c = View a i s u usr t_mod t_cre"
  by (cases c) auto

lemma run_views:
  "list_all (is_view_on a) vs \<Longrightarrow> stored_hits db a = Some n \<Longrightarrow>
     \<exists>db'. run vs db = Inr db' \<and> stored_hits db' a = Some (n + int (length vs))"
proof (induction vs arbitrary: db n)
  case Nil
  then show ?case by simp
next
  case (Cons c vs)
  from Cons.prems(1) have v: "is_view_on a c" and rest: "list_all (is_view_on a) vs"
    by simp_all
  from v obtain i s u usr t_mod t_cre where c: "c = View a i s u usr t_mod t_cre"
    using is_view_on_cases by blast
  from exec_View_succeeds [OF Cons.prems(2)]
  obtain db1 where e: "exec c db = Inr db1" unfolding c by blast
  have "\<not> is_delete c" using c by simp
  from exec_stored_hits [OF this e Cons.prems(2)] v
  have "stored_hits db1 a = Some (n + 1)" by simp
  from Cons.IH [OF rest this]
  obtain db' where "run vs db1 = Inr db'" and "stored_hits db' a = Some (n + 1 + int (length vs))"
    by blast
  then show ?case using e by simp
qed

subsection \<open>Facts about the example data\<close>

lemma hit0_facts:
  "created hit0 = None" "Hit_hitcount hit0 db0 = Inr hc0" "hc_pk hc0 = Some 1"
  "stored_hits db0 1 = Some 2"
  by (simp_all add: hit0_def new_Hit_def Hit_hitcount_def hc0_def stored_hits_def
      hitcount_row_of_def db0_def)

lemma hit2_facts:
  "hit_pk hit2 = Some 2" "Hit_hitcount hit2 db0 = Inr hc0" "hc_pk hc0 = Some 1"
  "stored_hits db0 1 = Some 2"
  by (simp_all add: hit2_def Hit_of_row_def Hit_hitcount_def HitCount_get_def HitCount_of_row_def
      hc0_def stored_hits_def hitcount_row_of_def db0_def)

lemma hit2_reset_facts:
  "Hit_hitcount hit2 db_reset = Inr hc_reset" "hc_pk hc_reset = Some 1"
  "stored_hits db_reset 1 = Some 0"
  by (simp_all add: hit2_def Hit_of_row_def Hit_hitcount_def HitCount_get_def HitCount_of_row_def
      hc_reset_def stored_hits_def hitcount_row_of_def db_reset_def db0_def)

lemma HitCount_save_hc0:
  "HitCount_save now0 hc0 db0 =
     Inr (db0\<lparr>hitcount_table := map (HitCount_update 1 (hc0\<lparr>modified := now0\<rparr>)) (hitcount_table db0)\<rparr>,
          hc0\<lparr>modified := now0\<rparr>)"
  using hit0_facts(3,4) by (rule HitCount_save_stored)

lemmas model_defs =
  HitCount_get_def Hit_get_def hitcount_row_of_def hit_row_of_def HitCount_of_row_def
  Hit_of_row_def new_Hit_def Hit_save_def Hit_hitcount_def HitCount_save_def
  HitCount_base_save_def HitCount_update_def HitCount_insert_def Hit_base_save_def
  Hit_insert_def Hit_update_def Hit_row_of_instance_def Hit_delete_def subtract_hit_count_def
  hits_in_last_def filter_active_def grace_def timedelta_def datetime_sub_def unit_us_def
  hit_set_def next_id_def datetime_range_def

lemma run_calls0: "run calls0 db0 = Inr db_after"
  by (simp add: calls0_def db0_def db_after_def model_defs now0_def us_per_day_def)

lemma run_views0: "run views0 db_zero = Inr db_views"
  by (simp add: views0_def db_zero_def db_views_def model_defs now0_def us_per_day_def)

lemma consistent_db0: "consistent db0"
  by (simp add: consistent_def db0_def hit_count_def)

lemma views0_facts:
  "list_all (\<lambda>c. \<not> is_delete c) views0" "list_all (is_view_on 1) views0"
  "stored_hits db_zero 1 = Some 0"
  by (simp_all add: views0_def stored_hits_def hitcount_row_of_def db_zero_def)

section \<open>The claims\<close>

text \<open>
  Claim C1. The counter of every aggregate equals the number of its stored hits, and
  every sequence of calls that completes keeps it so: recording a view adds one hit and
  one to the counter, deleting a hit removes one of each, and no other call changes the
  counter. In a sequence without deletions the counter of an aggregate grows by the
  number of views recorded on it; in particular \<open>N\<close> views recorded on an aggregate
  whose counter is 0 all succeed and leave the counter at \<open>N\<close>.
\<close>

theorem hits_counter_invariant:
  "(consistent db \<and> run cs db = Inr db' \<longrightarrow>
      consistent db' \<and> (\<forall>a m. stored_hits db' a = Some m \<longrightarrow> m = int (hit_count db' a))) \<and>
   (list_all (\<lambda>c. \<not> is_delete c) cs \<and> run cs db = Inr db' \<and> stored_hits db a = Some n \<longrightarrow>
      stored_hits db' a = Some (n + int (length (filter (is_view_on a) cs)))) \<and>
   (list_all (is_view_on a) vs \<and> stored_hits db a = Some 0 \<longrightarrow>
      (\<exists>db''. run vs db = Inr db'' \<and> stored_hits db'' a = Some (int (length vs))))"
proof (rule conjI)
  show "consistent db \<and> run cs db = Inr db' \<longrightarrow>
      consistent db' \<and> (\<forall>a m. stored_hits db' a = Some m \<longrightarrow> m = int (hit_count db' a))"
    using consistent_run consistent_stored by blast
next
  show "(list_all (\<lambda>c. \<not> is_delete c) cs \<and> run cs db = Inr db' \<and> stored_hits db a = Some n \<longrightarrow>
      stored_hits db' a = Some (n + int (length (filter (is_view_on a) cs)))) \<and>
   (list_all (is_view_on a) vs \<and> stored_hits db a = Some 0 \<longrightarrow>
      (\<exists>db''. run vs db = Inr db'' \<and> stored_hits db'' a = Some (int (length vs))))"
  proof (rule conjI)
    show "list_all (\<lambda>c. \<not> is_delete c) cs \<and> run cs db = Inr db' \<and> stored_hits db a = Some n \<longrightarrow>
      stored_hits db' a = Some (n + int (length (filter (is_view_on a) cs)))"
      using run_stored_hits by blast
  next
    show "list_all (is_view_on a) vs \<and> stored_hits db a = Some 0 \<longrightarrow>
      (\<exists>db''. run vs db = Inr db'' \<and> stored_hits db'' a = Some (int (length vs)))"
      using run_views [of a vs db 0] by simp
  qed
qed

theorem hits_counter_invariant_witness:
  "consistent db0 \<and> run calls0 db0 = Inr db_after \<and>
   consistent db_after \<and> stored_hits db_after 1 = Some 2 \<and> hit_count db_after 1 = 2 \<and>
   list_all (\<lambda>c. \<not> is_delete c) views0 \<and> list_all (is_view_on 1) views0 \<and>
   run views0 db_zero = Inr db_views \<and> stored_hits db_zero 1 = Some 0 \<and>
   stored_hits db_views 1 = Some 2 \<and> length views0 = 2"
proof -
  have a: "consistent db_after \<and>
      (\<forall>a m. stored_hits db_after a = Some m \<longrightarrow> m = int (hit_count db_after a))"
    using hits_counter_invariant [of db0 calls0 db_after] consistent_db0 run_calls0 by simp
  have s: "stored_hits db_after 1 = Some 2"
    by (simp add: stored_hits_def hitcount_row_of_def db_after_def)
  from a s have "(2::int) = int (hit_count db_after 1)" by blast
  then have c: "hit_count db_after 1 = 2" by simp
  have b: "stored_hits db_views 1 = Some (0 + int (length (filter (is_view_on 1) views0)))"
    using hits_counter_invariant [of db_zero views0 db_views 1 0] views0_facts run_views0
    by simp
  have "length (filter (is_view_on 1) views0) = 2" "length views0 = 2"
    by (simp_all add: views0_def)
  with a s c b consistent_db0 run_calls0 views0_facts run_views0 show ?thesis by simp
qed

text \<open>
  Claim C2. The \<open>created\<close> timestamp of a hit is set exactly once. A first save (with
  \<open>created\<close> unset) of a hit whose aggregate is stored succeeds, assigns \<open>created\<close>
  (in the instance and in the stored row) and adds 1 to the aggregate's \<open>hits\<close>. Every
  later save of that instance, at any time and against any database, leaves \<open>created\<close>
  as it is and changes no row of the aggregate table.
\<close>

theorem Hit_save_sets_created_once:
  assumes "created self = None" and "Hit_hitcount self db = Inr hc"
    and "hc_pk hc = Some a" and "stored_hits db a = Some n"
  shows "\<exists>db1 self1 k. Hit_save t1 t2 self db = Inr (db1, self1) \<and>
           created self1 = Some t2 \<and> hit_pk self1 = Some k \<and>
           stored_created db1 k = Some t2 \<and>
           stored_hits db1 a = Some (n + 1) \<and>
           (\<forall>db' t3 t4. \<exists>db2 self2. Hit_save t3 t4 self1 db' = Inr (db2, self2) \<and>
              created self2 = Some t2 \<and> hit_pk self2 = Some k \<and>
              stored_created db2 k = Some t2 \<and>
              hitcount_table db2 = hitcount_table db')"
proof -
  from Hit_save_first [OF assms, of t1 t2]
  obtain db1 self1 k where f: "Hit_save t1 t2 self db = Inr (db1, self1)"
    and fc: "created self1 = Some t2" and fk: "hit_pk self1 = Some k"
    and fs: "stored_created db1 k = Some t2" and fh: "stored_hits db1 a = Some (n + 1)"
    by blast
  have "\<exists>db2 self2. Hit_save t3 t4 self1 db' = Inr (db2, self2) \<and>
              created self2 = Some t2 \<and> hit_pk self2 = Some k \<and>
              stored_created db2 k = Some t2 \<and>
              hitcount_table db2 = hitcount_table db'" for db' t3 t4
    using Hit_save_again [OF fc, of t3 t4 db'] fk by auto
  with f fc fk fs fh show ?thesis by blast
qed

theorem Hit_save_sets_created_once_witness:
  "created hit0 = None \<and> Hit_hitcount hit0 db0 = Inr hc0 \<and> hc_pk hc0 = Some 1 \<and>
   stored_hits db0 1 = Some 2 \<and>
   (\<exists>db1 self1 k. Hit_save (now0 + 5) (now0 + 6) hit0 db0 = Inr (db1, self1) \<and>
           created self1 = Some (now0 + 6) \<and> hit_pk self1 = Some k \<and>
           stored_created db1 k = Some (now0 + 6) \<and>
           stored_hits db1 1 = Some 3 \<and>
           (\<forall>db' t3 t4. \<exists>db2 self2. Hit_save t3 t4 self1 db' = Inr (db2, self2) \<and>
              created self2 = Some (now0 + 6) \<and> hit_pk self2 = Some k \<and>
              stored_created db2 k = Some (now0 + 6) \<and>
              hitcount_table db2 = hitcount_table db'))"
  using Hit_save_sets_created_once [OF hit0_facts, of "now0 + 5" "now0 + 6"] hit0_facts
  by simp

text \<open>
  Claim C3. Deleting a hit whose aggregate is stored succeeds, removes the hit's row and
  leaves the aggregate's \<open>hits\<close> at exactly one less than before; the counter of every
  other aggregate is unchanged.
\<close>

theorem Hit_delete_decrements_once:
  assumes "hit_pk self = Some k" and "Hit_hitcount self db = Inr hc"
    and "hc_pk hc = Some a" and "stored_hits db a = Some n"
  shows "\<exists>db1 self1. Hit_delete now self db = Inr (db1, self1) \<and>
           hit_row_of db1 k = None \<and>
           stored_hits db1 a = Some (n - 1) \<and>
           (\<forall>b. b \<noteq> a \<longrightarrow> stored_hits db1 b = stored_hits db b)"
proof -
  from Hit_delete_stored [OF assms, of now]
  obtain db1 self1 where d: "Hit_delete now self db = Inr (db1, self1)"
    and dt: "hit_table db1 = filter (\<lambda>h. h_id h \<noteq> k) (hit_table db)"
    and dh: "stored_hits db1 a = Some (n - 1)"
    and dd: "\<forall>b. b \<noteq> a \<longrightarrow> stored_hits db1 b = stored_hits db b \<and>
                             stored_modified db1 b = stored_modified db b"
    by blast
  have "hit_row_of db1 k = None"
    unfolding hit_row_of_def dt by (rule find_filter_out)
  with d dh dd show ?thesis by blast
qed

theorem Hit_delete_decrements_once_witness:
  "hit_pk hit2 = Some 2 \<and> Hit_hitcount hit2 db0 = Inr hc0 \<and> hc_pk hc0 = Some 1 \<and>
   stored_hits db0 1 = Some 2 \<and>
   (\<exists>db1 self1. Hit_delete now0 hit2 db0 = Inr (db1, self1) \<and>
           hit_row_of db1 2 = None \<and>
           stored_hits db1 1 = Some 1 \<and>
           (\<forall>b. b \<noteq> 1 \<longrightarrow> stored_hits db1 b = stored_hits db0 b))"
  using Hit_delete_decrements_once [OF hit2_facts, of now0] hit2_facts
  by simp

text \<open>
  Claim C4. For a positive window that does not reach before the first representable
  \<open>datetime\<close>, \<open>hits_in_last\<close> returns the number of the aggregate's hits whose
  \<open>created\<close> is at or after \<open>now - window\<close>. With one hit a day old and one ten
  days old, \<open>hits_in_last(days=7)\<close> returns 1.
\<close>

theorem hits_in_last_counts_window:
  assumes "hc_pk self = Some a"
    and "timedelta kw = Inr w" and "0 < w"
    and "w \<le> now" and "now < datetime_range"
  shows "hits_in_last now self kw db =
           Inr (length (filter (\<lambda>h. h_hitcount_id h = a \<and> now - w \<le> h_created h) (hit_table db)))"
proof -
  have "kw \<noteq> []" using assms(2,3) timedelta_nonempty by auto
  moreover have "0 \<le> now - w" "now - w < datetime_range" using assms by auto
  ultimately show ?thesis
    using assms(1,2) by (simp add: hits_in_last_window)
qed

theorem hits_in_last_counts_window_witness:
  "hc_pk hc0 = Some 1 \<and> timedelta [(''days'', PyInt 7)] = Inr (7 * us_per_day) \<and>
   0 < 7 * us_per_day \<and> 7 * us_per_day \<le> now0 \<and> now0 < datetime_range \<and>
   hits_in_last now0 hc0 [(''days'', PyInt 7)] db0 = Inr 1"
proof -
  have h1: "hc_pk hc0 = Some 1" by (simp add: hc0_def)
  have h2: "timedelta [(''days'', PyInt 7)] = Inr (7 * us_per_day)"
    by (simp add: timedelta_def unit_us_def us_per_day_def)
  have h3: "0 < 7 * us_per_day" by (simp add: us_per_day_def)
  have h4: "7 * us_per_day \<le> now0" by (simp add: now0_def us_per_day_def)
  have h5: "now0 < datetime_range" by (simp add: now0_def datetime_range_def us_per_day_def)
  have "hits_in_last now0 hc0 [(''days'', PyInt 7)] db0 = Inr 1"
    using hits_in_last_counts_window [OF h1 h2 h3 h4 h5, of db0]
    by (simp add: db0_def now0_def us_per_day_def)
  with h1 h2 h3 h4 h5 show ?thesis by simp
qed

text \<open>
  Claim C5, as stated: a window of zero or negative length is refused. It is not:
  \<open>hits_in_last(days=0)\<close> and \<open>hits_in_last(days=-20)\<close> return a count.
\<close>

theorem hits_in_last_nonpositive_window_counterexample:
  "hits_in_last now0 hc0 [(''days'', PyInt 0)] db0 = Inr 0 \<and>
   hits_in_last now0 hc0 [(''days'', PyInt (- 20))] db0 = Inr 0"
  by (simp add: hits_in_last_def timedelta_def unit_us_def us_per_day_def datetime_sub_def
      datetime_range_def hit_set_def db0_def hc0_def now0_def)

text \<open>
  Claim C5, amended. \<open>hits_in_last\<close> fails with \<open>TypeError\<close> when an argument is
  not a \<open>timedelta\<close> keyword or its value is not a number. A window of zero or negative
  length is accepted: the call returns the number of the aggregate's hits whose
  \<open>created\<close> is at or after \<open>now - window\<close>, a moment at or after \<open>now\<close>.
\<close>

theorem hits_in_last_window_errors:
  "(kw \<noteq> [] \<and> (\<exists>(k, v) \<in> set kw. unit_us k = None \<or> (\<exists>s. v = PyStr s)) \<longrightarrow>
      hits_in_last now self kw db = Inl TypeError) \<and>
   (hc_pk self = Some a \<and> kw \<noteq> [] \<and> timedelta kw = Inr w \<and> w \<le> 0 \<and> 0 \<le> now \<and>
    now - w < datetime_range \<longrightarrow>
      hits_in_last now self kw db =
        Inr (length (filter (\<lambda>h. h_hitcount_id h = a \<and> now - w \<le> h_created h) (hit_table db))))"
proof (intro conjI impI)
  assume "kw \<noteq> [] \<and> (\<exists>(k, v) \<in> set kw. unit_us k = None \<or> (\<exists>s. v = PyStr s))"
  then have "kw \<noteq> []" and "timedelta_us kw = Inl TypeError"
    using timedelta_us_unparseable by auto
  then show "hits_in_last now self kw db = Inl TypeError"
    by (simp add: hits_in_last_def timedelta_def)
next
  assume h: "hc_pk self = Some a \<and> kw \<noteq> [] \<and> timedelta kw = Inr w \<and> w \<le> 0 \<and> 0 \<le> now \<and>
    now - w < datetime_range"
  then have "0 \<le> now - w" by simp
  with h show "hits_in_last now self kw db =
        Inr (length (filter (\<lambda>h. h_hitcount_id h = a \<and> now - w \<le> h_created h) (hit_table db)))"
    by (simp add: hits_in_last_window)
qed

theorem hits_in_last_window_errors_witness:
  "hits_in_last now0 hc0 [(''fortnights'', PyInt 1)] db0 = Inl TypeError \<and>
   hits_in_last now0 hc0 [(''days'', PyStr ''seven'')] db0 = Inl TypeError \<and>
   hits_in_last now0 hc0 [(''days'', PyInt (- 20))] db0 =
     Inr (length (filter (\<lambda>h. h_hitcount_id h = 1 \<and> now0 - (- 20 * us_per_day) \<le> h_created h)
                    (hit_table db0)))"
proof -
  have "hits_in_last now0 hc0 [(''fortnights'', PyInt 1)] db0 = Inl TypeError"
    using hits_in_last_window_errors [of "[(''fortnights'', PyInt 1)]" now0 hc0 db0]
    by (simp add: unit_us_def)
  moreover have "hits_in_last now0 hc0 [(''days'', PyStr ''seven'')] db0 = Inl TypeError"
    using hits_in_last_window_errors [of "[(''days'', PyStr ''seven'')]" now0 hc0 db0]
    by simp
  moreover have "hits_in_last now0 hc0 [(''days'', PyInt (- 20))] db0 =
     Inr (length (filter (\<lambda>h. h_hitcount_id h = 1 \<and> now0 - (- 20 * us_per_day) \<le> h_created h)
                    (hit_table db0)))"
    using hits_in_last_window_errors [of "[(''days'', PyInt (- 20))]" now0 hc0 db0 1 "- 20 * us_per_day"]
    by (simp add: hc0_def timedelta_def unit_us_def us_per_day_def now0_def datetime_range_def)
  ultimately show ?thesis by simp
qed

text \<open>
  Claim C6, as stated: \<open>filter_active\<close> returns exactly the hits created between
  \<open>now - window\<close> and \<open>now\<close>. It does not: it has no upper bound, and returns the
  hit dated one day after \<open>now0\<close> together with the hit that is one day old.
\<close>

theorem filter_active_future_hit_counterexample:
  "filter_active None now0 no_filter db_future = Inr (set [hit_table db0 ! 1, hit_row_future]) \<and>
   now0 < h_created hit_row_future"
  by (simp add: filter_active_def grace_def timedelta_def unit_us_def us_per_day_def
      datetime_sub_def datetime_range_def no_filter_def db_future_def db0_def
      hit_row_future_def now0_def)

text \<open>
  Claim C6, amended. The active window is the duration of the setting
  \<open>HITCOUNT_KEEP_HIT_ACTIVE\<close>, seven days when the setting is absent.
  \<open>filter_active\<close> returns exactly the hits created at or after \<open>now - window\<close>
  (that satisfy the caller's further filter, if any), whether dated before or after
  \<open>now\<close>; a hit created before \<open>now - window\<close> is not returned.
\<close>

theorem filter_active_since:
  assumes "timedelta (grace setting) = Inr w"
    and "0 \<le> now - w" and "now - w < datetime_range"
  shows "timedelta (grace None) = Inr (7 * us_per_day) \<and> grace (Some g) = g \<and>
         (\<exists>hs. filter_active setting now cond db = Inr hs \<and>
            hs = set (filter (\<lambda>h. now - w \<le> h_created h \<and> cond h) (hit_table db)) \<and>
            (\<forall>h. h \<in> hs \<longleftrightarrow> h \<in> set (hit_table db) \<and> now - w \<le> h_created h \<and> cond h) \<and>
            (\<forall>h. h_created h < now - w \<longrightarrow> h \<notin> hs))"
proof -
  let ?hs = "set (filter cond (filter (\<lambda>h. now - w \<le> h_created h) (hit_table db)))"
  have run: "filter_active setting now cond db = Inr ?hs"
    using assms by (simp add: filter_active_def datetime_sub_def)
  have eq: "?hs = set (filter (\<lambda>h. now - w \<le> h_created h \<and> cond h) (hit_table db))"
    by (simp add: filter_filter_conj)
  have mem: "\<forall>h. h \<in> ?hs \<longleftrightarrow> h \<in> set (hit_table db) \<and> now - w \<le> h_created h \<and> cond h"
    by auto
  have old: "\<forall>h. h_created h < now - w \<longrightarrow> h \<notin> ?hs" by auto
  have "grace (Some g) = g" by (simp add: grace_def)
  with run eq mem old timedelta_default show ?thesis by blast
qed

theorem filter_active_since_witness:
  "timedelta (grace None) = Inr (7 * us_per_day) \<and>
   0 \<le> now0 - 7 * us_per_day \<and> now0 - 7 * us_per_day < datetime_range \<and>
   filter_active None now0 no_filter db_future = Inr (set [hit_table db0 ! 1, hit_row_future]) \<and>
   timedelta (grace (Some grace_30)) = Inr (30 * us_per_day + 30 * 60000000) \<and>
   0 \<le> now0 - (30 * us_per_day + 30 * 60000000) \<and>
   now0 - (30 * us_per_day + 30 * 60000000) < datetime_range \<and>
   filter_active (Some grace_30) now0 no_filter db0 = Inr (set (hit_table db0))"
proof -
  have h1: "timedelta (grace None) = Inr (7 * us_per_day)"
    by (simp add: grace_def timedelta_def unit_us_def us_per_day_def)
  have h2: "0 \<le> now0 - 7 * us_per_day" by (simp add: now0_def us_per_day_def)
  have h3: "now0 - 7 * us_per_day < datetime_range"
    by (simp add: now0_def us_per_day_def datetime_range_def)
  have r1: "filter_active None now0 no_filter db_future =
      Inr (set [hit_table db0 ! 1, hit_row_future])"
    using filter_active_since [OF h1 h2 h3, of "[]" no_filter db_future]
    by (simp add: no_filter_def db_future_def db0_def hit_row_future_def now0_def us_per_day_def)
  have g1: "timedelta (grace (Some grace_30)) = Inr (30 * us_per_day + 30 * 60000000)"
    by (simp add: grace_def grace_30_def timedelta_def unit_us_def us_per_day_def)
  have g2: "0 \<le> now0 - (30 * us_per_day + 30 * 60000000)"
    by (simp add: now0_def us_per_day_def)
  have g3: "now0 - (30 * us_per_day + 30 * 60000000) < datetime_range"
    by (simp add: now0_def us_per_day_def datetime_range_def)
  have r2: "filter_active (Some grace_30) now0 no_filter db0 = Inr (set (hit_table db0))"
    using filter_active_since [OF g1 g2 g3, of "[]" no_filter db0]
    by (simp add: no_filter_def db0_def now0_def us_per_day_def)
  from h1 h2 h3 r1 g1 g2 g3 r2 show ?thesis by simp
qed

text \<open>
  Claim C7. Every save of an aggregate that completes leaves \<open>modified\<close>, in the
  instance and in the stored row, at the clock reading of that save. The first save of a
  hit, which increments through that save, adds 1 to the stored \<open>hits\<close> and sets the
  stored \<open>modified\<close> to the clock reading.
\<close>

theorem HitCount_save_sets_modified:
  "(HitCount_save now self db = Inr (db1, self1) \<longrightarrow>
      modified self1 = now \<and> (\<exists>a. hc_pk self1 = Some a \<and> stored_modified db1 a = Some now)) \<and>
   (created h = None \<and> Hit_hitcount h db = Inr hc \<and> hc_pk hc = Some a \<and>
    stored_hits db a = Some n \<longrightarrow>
      (\<exists>db2 h2. Hit_save now t_cre h db = Inr (db2, h2) \<and>
         stored_hits db2 a = Some (n + 1) \<and> stored_modified db2 a = Some now))"
proof (rule conjI)
  show "HitCount_save now self db = Inr (db1, self1) \<longrightarrow>
      modified self1 = now \<and> (\<exists>a. hc_pk self1 = Some a \<and> stored_modified db1 a = Some now)"
    using HitCount_save_modified by blast
next
  show "created h = None \<and> Hit_hitcount h db = Inr hc \<and> hc_pk hc = Some a \<and>
    stored_hits db a = Some n \<longrightarrow>
      (\<exists>db2 h2. Hit_save now t_cre h db = Inr (db2, h2) \<and>
         stored_hits db2 a = Some (n + 1) \<and> stored_modified db2 a = Some now)"
  proof (rule impI)
    assume "created h = None \<and> Hit_hitcount h db = Inr hc \<and> hc_pk hc = Some a \<and>
      stored_hits db a = Some n"
    then have "created h = None" "Hit_hitcount h db = Inr hc" "hc_pk hc = Some a"
      "stored_hits db a = Some n" by simp_all
    from Hit_save_first [OF this, of now t_cre]
    show "\<exists>db2 h2. Hit_save now t_cre h db = Inr (db2, h2) \<and>
           stored_hits db2 a = Some (n + 1) \<and> stored_modified db2 a = Some now"
      by blast
  qed
qed

theorem HitCount_save_sets_modified_witness:
  "HitCount_save now0 hc0 db0 =
     Inr (db0\<lparr>hitcount_table := map (HitCount_update 1 (hc0\<lparr>modified := now0\<rparr>)) (hitcount_table db0)\<rparr>,
          hc0\<lparr>modified := now0\<rparr>) \<and>
   modified (hc0\<lparr>modified := now0\<rparr>) = now0 \<and>
   (\<exists>a. hc_pk (hc0\<lparr>modified := now0\<rparr>) = Some a \<and>
      stored_modified (db0\<lparr>hitcount_table := map (HitCount_update 1 (hc0\<lparr>modified := now0\<rparr>)) (hitcount_table db0)\<rparr>) a = Some now0) \<and>
   created hit0 = None \<and> Hit_hitcount hit0 db0 = Inr hc0 \<and> hc_pk hc0 = Some 1 \<and>
   stored_hits db0 1 = Some 2 \<and>
   (\<exists>db2 h2. Hit_save now0 (now0 + 1) hit0 db0 = Inr (db2, h2) \<and>
         stored_hits db2 1 = Some 3 \<and> stored_modified db2 1 = Some now0)"
  using HitCount_save_sets_modified [of now0 hc0 db0
      "db0\<lparr>hitcount_table := map (HitCount_update 1 (hc0\<lparr>modified := now0\<rparr>)) (hitcount_table db0)\<rparr>"
      "hc0\<lparr>modified := now0\<rparr>" hit0 hc0 1 2 "now0 + 1"]
    HitCount_save_hc0 hit0_facts
  by simp

text \<open>
  Claim C8. The decrement has no floor: applied to an aggregate whose stored \<open>hits\<close>
  is 0 (or less), the handler succeeds and stores a value below zero.
\<close>

theorem subtract_hit_count_no_floor:
  assumes "Hit_hitcount instance db = Inr hc" and "hc_pk hc = Some a"
    and "stored_hits db a = Some n" and "n \<le> 0"
  shows "\<exists>db1 instance1. subtract_hit_count now instance db = Inr (db1, instance1) \<and>
           stored_hits db1 a = Some (n - 1) \<and> n - 1 < 0"
  using subtract_hit_count_stored [OF assms(1-3), of now] assms(4) by auto

theorem subtract_hit_count_no_floor_witness:
  "Hit_hitcount hit2 db_reset = Inr hc_reset \<and> hc_pk hc_reset = Some 1 \<and>
   stored_hits db_reset 1 = Some 0 \<and> (0::int) \<le> 0 \<and>
   (\<exists>db1 instance1. subtract_hit_count now0 hit2 db_reset = Inr (db1, instance1) \<and>
           stored_hits db1 1 = Some (- 1))"
  using subtract_hit_count_no_floor [OF hit2_reset_facts, of now0] hit2_reset_facts
  by simp

text \<open>
  Claim C9. Called with no duration argument, \<open>hits_in_last\<close> fails with
  \<open>AssertionError\<close>, whatever the database holds; it returns no count.
\<close>

theorem hits_in_last_no_arguments:
  "hits_in_last now self [] db = Inl AssertionError"
  by (simp add: hits_in_last_def)

text \<open>
  Claim C10. Deleting a hit also sets the stored \<open>modified\<close> of its aggregate to the
  clock reading of the deletion, whatever it was before.
\<close>

theorem Hit_delete_sets_modified:
  assumes "hit_pk self = Some k" and "Hit_hitcount self db = Inr hc"
    and "hc_pk hc = Some a" and "stored_hits db a = Some n"
  shows "\<exists>db1 self1. Hit_delete now self db = Inr (db1, self1) \<and>
           stored_modified db1 a = Some now"
  using Hit_delete_stored [OF assms, of now] by blast

theorem Hit_delete_sets_modified_witness:
  "hit_pk hit2 = Some 2 \<and> Hit_hitcount hit2 db0 = Inr hc0 \<and> hc_pk hc0 = Some 1 \<and>
   stored_hits db0 1 = Some 2 \<and> stored_modified db0 1 = Some (now0 - us_per_day) \<and>
   (\<exists>db1 self1. Hit_delete now0 hit2 db0 = Inr (db1, self1) \<and>
           stored_modified db1 1 = Some now0)"
proof -
  have "stored_modified db0 1 = Some (now0 - us_per_day)"
    by (simp add: stored_modified_def hitcount_row_of_def db0_def)
  then show ?thesis
  using Hit_delete_sets_modified [OF hit2_facts, of now0] hit2_facts
  by simp
qed

end
